theory Spec2Isabelle
  imports Complex_Main
begin

section \<open>Data model\<close>

text \<open>
  The types follow the declarations of the repository's \<^verbatim>\<open>types/index.ts\<close>.
  A field keeps its source name; where two interfaces share a field name, or the name is
  taken in HOL or in Isar (\<^verbatim>\<open>id\<close>, \<^verbatim>\<open>size\<close>, \<^verbatim>\<open>file\<close>), the field carries
  the initials of its interface as a suffix.

  A JavaScript \<^verbatim>\<open>number\<close> is an IEEE-754 double. One that holds a byte count or a
  counter is modelled as a \<^typ>\<open>nat\<close>, one that holds a time stamp, a difference of byte
  counts or the result of \<^verbatim>\<open>Math.round\<close> as an \<^typ>\<open>int\<close>: integers of magnitude
  below \<open>2^53\<close> are doubles, and sums and differences of them that stay below \<open>2^53\<close>
  are computed exactly. A number that results from a division or a multiplication is
  modelled as the \<^typ>\<open>rat\<close> that the double denotes, and each arithmetic operation on
  such numbers rounds its exact result to the nearest double, as the section on
  JavaScript numbers below defines it.
\<close>

text \<open>The browser's \<^verbatim>\<open>File\<close> object, as far as the code reads it.\<close>

record File =
  name_File :: string
  size_File :: nat
  type_File :: string
  lastModified_File :: int

record FileInfo =
  file_FI :: File
  name :: string
  size_FI :: nat
  type_FI :: string
  lastModified :: int

text \<open>
  The messages of the validator are template strings in Japanese; each template is a
  constructor that carries the values interpolated into it (the file name, the declared
  type, the byte size, the limit).
\<close>

datatype validation_message =
    NoFilesSelected
  | TooManyFiles nat
  | UnsupportedFormatMsg string string
  | FileTooLargeMsg string nat nat
  | EmptyFileMsg string
  | LargeFileWarning string nat

record ValidationResult =
  isValid :: bool
  errors :: "validation_message list"
  warnings :: "validation_message list"

text \<open>
  A value that a JavaScript function throws: an instance of \<^verbatim>\<open>Error\<close> or of one of its
  subclasses, with its name and its message (\<^verbatim>\<open>new Error(m)\<close> has the name
  \<^verbatim>\<open>Error\<close>), or any other value, with the text that \<^verbatim>\<open>String(value)\<close> gives.
\<close>

datatype js_thrown = JsError string string | JsOther string

section \<open>JavaScript numbers\<close>

text \<open>
  A finite double is represented by the rational number it denotes; minus zero is not
  distinguished from zero. The result of an arithmetic operation is the double nearest to
  the exact result, a tie going to the double with the even significand; the significand
  has 53 bits. Infinities, NaN and subnormal numbers are not represented: the exponent is
  unbounded here, which agrees with the doubles as long as the magnitude of every non-zero
  result lies between \<open>2^-1022\<close> and \<open>2^1024\<close>, as it does for all operations on byte
  counts, percentages, durations and counters below \<open>2^53\<close>.

  \<open>halvings x\<close> is the exponent of the power of two at or below \<open>x\<close>, for \<open>x\<close> of 1 or
  more; \<open>doublings x\<close> is the exponent of the power of two at or above \<open>1 / x\<close>, for
  \<open>x\<close> between 0 and 1; \<open>ulp x\<close> is the distance of the doubles around \<open>x\<close>.
\<close>

function halvings :: "rat \<Rightarrow> nat" where
  "halvings x = (if 2 \<le> x then Suc (halvings (x / 2)) else 0)"
  by pat_completeness auto
termination
proof (relation "measure (\<lambda>x. nat \<lfloor>x\<rfloor>)")
  show "wf (measure (\<lambda>x::rat. nat \<lfloor>x\<rfloor>))" by simp
next
  fix x :: rat
  assume x: "2 \<le> x"
  have "\<lfloor>x / 2\<rfloor> < \<lfloor>x\<rfloor>"
  proof -
    have "x / 2 < of_int \<lfloor>x\<rfloor>"
    proof -
      from x have "2 \<le> \<lfloor>x\<rfloor>" by (simp add: le_floor_iff)
      then have "(2::rat) \<le> of_int \<lfloor>x\<rfloor>" by (metis of_int_le_iff of_int_numeral)
      moreover have "x < of_int \<lfloor>x\<rfloor> + 1" by linarith
      ultimately show ?thesis by linarith
    qed
    then show ?thesis by (simp add: floor_less_iff)
  qed
  moreover from x have "0 < \<lfloor>x\<rfloor>" by (simp add: floor_less_iff less_floor_iff)
  ultimately show "(x / 2, x) \<in> measure (\<lambda>x. nat \<lfloor>x\<rfloor>)" by simp
qed

function doublings :: "rat \<Rightarrow> nat" where
  "doublings x = (if 0 < x \<and> x < 1 then Suc (doublings (x * 2)) else 0)"
  by pat_completeness auto
termination
proof (relation "measure (\<lambda>x. nat \<lceil>1 / x\<rceil>)")
  show "wf (measure (\<lambda>x::rat. nat \<lceil>1 / x\<rceil>))" by simp
next
  fix x :: rat
  assume x: "0 < x \<and> x < 1"
  then have z: "1 < 1 / x" by simp
  have "\<lceil>1 / (x * 2)\<rceil> < \<lceil>1 / x\<rceil>"
  proof (cases "1 / x \<le> 2")
    case True
    then have "1 / (x * 2) \<le> 1" using x by (simp add: field_simps)
    then have "\<lceil>1 / (x * 2)\<rceil> \<le> 1" by (simp add: ceiling_le_iff)
    moreover from z have "1 < \<lceil>1 / x\<rceil>" by (simp add: less_ceiling_iff)
    ultimately show ?thesis by linarith
  next
    case False
    then have "1 / (x * 2) + 1 < 1 / x" using x by (simp add: field_simps)
    moreover have "of_int \<lceil>1 / (x * 2)\<rceil> < 1 / (x * 2) + 1" by linarith
    moreover have "1 / x \<le> of_int \<lceil>1 / x\<rceil>" by linarith
    ultimately have "(of_int \<lceil>1 / (x * 2)\<rceil> :: rat) < of_int \<lceil>1 / x\<rceil>" by linarith
    then show ?thesis by simp
  qed
  moreover from x have "0 < \<lceil>1 / x\<rceil>" by (simp add: less_ceiling_iff)
  ultimately show "(x * 2, x) \<in> measure (\<lambda>x. nat \<lceil>1 / x\<rceil>)" by simp
qed

declare halvings.simps [simp del] doublings.simps [simp del]

definition ulp :: "rat \<Rightarrow> rat" where
  "ulp x = (if 1 \<le> \<bar>x\<bar> then 2 ^ halvings \<bar>x\<bar> / 2 ^ 52
            else 1 / (2 ^ doublings \<bar>x\<bar> * 2 ^ 52))"

definition roundTiesToEven :: "rat \<Rightarrow> int" where
  "roundTiesToEven r =
     (if r - of_int \<lfloor>r\<rfloor> < 1 / 2 then \<lfloor>r\<rfloor>
      else if 1 / 2 < r - of_int \<lfloor>r\<rfloor> then \<lfloor>r\<rfloor> + 1
      else if even \<lfloor>r\<rfloor> then \<lfloor>r\<rfloor> else \<lfloor>r\<rfloor> + 1)"

definition toDouble :: "rat \<Rightarrow> rat" where
  "toDouble x = (if x = 0 then 0 else of_int (roundTiesToEven (x / ulp x)) * ulp x)"

text \<open>
  The operators \<^verbatim>\<open>+\<close>, \<^verbatim>\<open>-\<close>, \<^verbatim>\<open>*\<close> and \<^verbatim>\<open>/\<close> on numbers (the code never
  divides by zero), and \<^verbatim>\<open>Math.round\<close>, which gives the nearest integer, a tie going
  towards plus infinity, as \<^const>\<open>round\<close> does.
\<close>

definition jsAdd :: "rat \<Rightarrow> rat \<Rightarrow> rat" where
  "jsAdd a b = toDouble (a + b)"

definition jsSub :: "rat \<Rightarrow> rat \<Rightarrow> rat" where
  "jsSub a b = toDouble (a - b)"

definition jsMul :: "rat \<Rightarrow> rat \<Rightarrow> rat" where
  "jsMul a b = toDouble (a * b)"

definition jsDiv :: "rat \<Rightarrow> rat \<Rightarrow> rat" where
  "jsDiv a b = toDouble (a / b)"

definition mathRound :: "rat \<Rightarrow> int" where
  "mathRound x = round x"

definition SUPPORTED_FORMATS :: "string list" where
  "SUPPORTED_FORMATS = [''image/png'', ''image/jpeg'', ''image/jpg'']"

definition MAX_FILE_SIZE_MB :: nat where
  "MAX_FILE_SIZE_MB = 10"

definition MAX_FILES_PER_BATCH :: nat where
  "MAX_FILES_PER_BATCH = 20"

section \<open>FileHandler\<close>

record FileHandler =
  selectedFiles :: "FileInfo list"
  isDisposed_FH :: bool

definition ensureNotDisposed_FH :: "FileHandler \<Rightarrow> js_thrown option" where
  "ensureNotDisposed_FH h =
     (if isDisposed_FH h then Some (JsError ''Error'' ''FileHandler has been disposed'') else None)"

text \<open>
  \<^verbatim>\<open>acceptFiles\<close>: the loop pushes one descriptor per element of the input, in order.
\<close>

definition toFileInfo :: "File \<Rightarrow> FileInfo" where
  "toFileInfo f =
     \<lparr> file_FI = f, name = name_File f, size_FI = size_File f,
       type_FI = type_File f, lastModified = lastModified_File f \<rparr>"

fun acceptLoop :: "File list \<Rightarrow> FileInfo list \<Rightarrow> FileInfo list" where
  "acceptLoop [] fileInfos = fileInfos"
| "acceptLoop (f # fileArray) fileInfos = acceptLoop fileArray (fileInfos @ [toFileInfo f])"

definition acceptFiles :: "FileHandler \<Rightarrow> File list \<Rightarrow> js_thrown + FileInfo list" where
  "acceptFiles h files =
     (case ensureNotDisposed_FH h of
        Some e \<Rightarrow> Inl e
      | None \<Rightarrow> Inr (acceptLoop files []))"

text \<open>
  \<^verbatim>\<open>validateSingleFile\<close>: four independent tests, each pushing at most one message.
\<close>

definition fileErrors :: "FileInfo \<Rightarrow> validation_message list" where
  "fileErrors fileInfo =
     (if type_FI fileInfo \<in> set SUPPORTED_FORMATS then []
      else [UnsupportedFormatMsg (name fileInfo) (type_FI fileInfo)])
     @ (if size_FI fileInfo > MAX_FILE_SIZE_MB * 1024 * 1024
        then [FileTooLargeMsg (name fileInfo) (size_FI fileInfo) MAX_FILE_SIZE_MB] else [])
     @ (if size_FI fileInfo = 0 then [EmptyFileMsg (name fileInfo)] else [])"

definition fileWarnings :: "FileInfo \<Rightarrow> validation_message list" where
  "fileWarnings fileInfo =
     (if size_FI fileInfo > 5 * 1024 * 1024
      then [LargeFileWarning (name fileInfo) (size_FI fileInfo)] else [])"

definition validateSingleFile :: "FileInfo \<Rightarrow> ValidationResult" where
  "validateSingleFile fileInfo =
     \<lparr> isValid = (length (fileErrors fileInfo) = 0),
       errors = fileErrors fileInfo,
       warnings = fileWarnings fileInfo \<rparr>"

text \<open>
  \<^verbatim>\<open>validateFiles\<close>: the two tests on the number of files, then the loop over the
  files, which appends the messages of each file to the two lists.
\<close>

definition countErrors :: "FileInfo list \<Rightarrow> validation_message list" where
  "countErrors files =
     (if length files = 0 then [NoFilesSelected] else [])
     @ (if length files > MAX_FILES_PER_BATCH then [TooManyFiles MAX_FILES_PER_BATCH] else [])"

fun validateLoop ::
  "FileInfo list \<Rightarrow> validation_message list \<Rightarrow> validation_message list
     \<Rightarrow> validation_message list \<times> validation_message list" where
  "validateLoop [] errs warns = (errs, warns)"
| "validateLoop (fileInfo # files) errs warns =
     (let fileValidation = validateSingleFile fileInfo
      in validateLoop files (errs @ errors fileValidation) (warns @ warnings fileValidation))"

definition validateFiles :: "FileHandler \<Rightarrow> FileInfo list \<Rightarrow> js_thrown + ValidationResult" where
  "validateFiles h files =
     (case ensureNotDisposed_FH h of
        Some e \<Rightarrow> Inl e
      | None \<Rightarrow>
          (case validateLoop files (countErrors files) [] of
             (errs, warns) \<Rightarrow>
               Inr \<lparr> isValid = (length errs = 0), errors = errs, warnings = warns \<rparr>))"

text \<open>What the claims call a violating file, and a file within the policy.\<close>

definition wrongFormat :: "FileInfo \<Rightarrow> bool" where
  "wrongFormat fileInfo = (type_FI fileInfo \<notin> set SUPPORTED_FORMATS)"

definition oversized :: "FileInfo \<Rightarrow> bool" where
  "oversized fileInfo = (size_FI fileInfo > MAX_FILE_SIZE_MB * 1024 * 1024)"

definition emptyFile :: "FileInfo \<Rightarrow> bool" where
  "emptyFile fileInfo = (size_FI fileInfo = 0)"

definition violating :: "FileInfo \<Rightarrow> bool" where
  "violating fileInfo = (wrongFormat fileInfo \<or> oversized fileInfo \<or> emptyFile fileInfo)"

definition withinPolicy :: "FileInfo \<Rightarrow> bool" where
  "withinPolicy fileInfo =
     (type_FI fileInfo \<in> set [''image/png'', ''image/jpeg'', ''image/jpg'']
      \<and> 0 < size_FI fileInfo \<and> size_FI fileInfo \<le> 10 * 1024 * 1024)"

section \<open>Results, progress, errors and statistics\<close>

record Blob =
  size_Blob :: nat
  type_Blob :: string

record HTMLImageElement =
  naturalWidth :: nat
  naturalHeight :: nat

datatype ConversionStatus = PENDING | PROCESSING_CS | COMPLETED | FAILED

datatype ProcessingStage = READING | PROCESSING | CONVERTING | FINALIZING

datatype ErrorType =
  UNSUPPORTED_FORMAT | FILE_TOO_LARGE | PROCESSING_ERROR | BROWSER_COMPATIBILITY | UNKNOWN_ERROR

record ConversionResult =
  id_CR :: string
  originalFile :: FileInfo
  convertedBlob :: Blob
  convertedSize :: nat
  compressionRatio :: int
  originalUrl :: string
  convertedUrl :: string
  processingTime :: int
  status :: ConversionStatus

record ConversionConfig =
  quality :: rat
  format :: string
  enableProgressReporting :: bool
  maxFileSize :: nat
  maxConcurrentConversions :: nat

definition DEFAULT_CONVERSION_CONFIG :: ConversionConfig where
  "DEFAULT_CONVERSION_CONFIG =
     \<lparr> quality = toDouble (8 / 10), format = ''webp'', enableProgressReporting = True,
       maxFileSize = 10 * 1024 * 1024, maxConcurrentConversions = 3 \<rparr>"

text \<open>
  The four progress messages and the five error messages are fixed Japanese texts; the
  last error message embeds the message of the error that was caught.
\<close>

datatype progress_message = ReadingMsg | ProcessingMsg | ConvertingMsg | FinalizingMsg

record ProgressInfo =
  id_PI :: string
  fileName_PI :: string
  progress :: nat
  stage :: ProcessingStage
  message_PI :: progress_message

datatype error_message =
    UnknownMsg
  | CancelledMsg
  | WebPUnsupportedMsg
  | TooLargeMsg
  | ProcessingFailedMsg string

record ConversionError =
  id_CE :: string
  fileName_CE :: string
  errorType :: ErrorType
  message_CE :: error_message
  details :: string
  timestamp :: int

record ConversionStats =
  totalFilesProcessed :: nat
  totalSizeReduced :: int
  averageCompressionRatio :: rat
  averageProcessingTime :: rat
  successfulConversions :: nat
  failedConversions :: nat

section \<open>Application: statistics\<close>

definition initializeStats :: ConversionStats where
  "initializeStats =
     \<lparr> totalFilesProcessed = 0, totalSizeReduced = 0, averageCompressionRatio = 0,
       averageProcessingTime = 0, successfulConversions = 0, failedConversions = 0 \<rparr>"

text \<open>
  \<^verbatim>\<open>updateStats\<close> mutates the fields one after the other; the two averages read the
  success counter after its increment. The counters and the bytes reduced are integers and
  are computed exactly (they stay below \<open>2^53\<close>); the product, the sum and the quotient
  of each average are operations on doubles.
\<close>

definition updateStats :: "ConversionStats \<Rightarrow> ConversionResult \<Rightarrow> ConversionStats" where
  "updateStats stats result =
     (let s1 = stats\<lparr>totalFilesProcessed := totalFilesProcessed stats + 1\<rparr>;
          s2 = s1\<lparr>successfulConversions := successfulConversions s1 + 1\<rparr>;
          sizeReduction = int (size_FI (originalFile result)) - int (convertedSize result);
          s3 = s2\<lparr>totalSizeReduced := totalSizeReduced s2 + sizeReduction\<rparr>;
          s4 = s3\<lparr>averageCompressionRatio :=
                 jsDiv (jsAdd (jsMul (averageCompressionRatio s3)
                                     (jsSub (of_nat (successfulConversions s3)) 1))
                              (of_int (compressionRatio result)))
                       (of_nat (successfulConversions s3))\<rparr>
      in s4\<lparr>averageProcessingTime :=
              jsDiv (jsAdd (jsMul (averageProcessingTime s4)
                                  (jsSub (of_nat (successfulConversions s4)) 1))
                           (of_int (processingTime result)))
                    (of_nat (successfulConversions s4))\<rparr>)"

text \<open>
  \<^verbatim>\<open>handleConversionError\<close>, as far as the statistics go (it also shows the error in
  the user interface).
\<close>

definition handleConversionError :: "ConversionStats \<Rightarrow> ConversionError \<Rightarrow> ConversionStats" where
  "handleConversionError stats error = stats\<lparr>failedConversions := failedConversions stats + 1\<rparr>"

definition handleConversionComplete :: "ConversionStats \<Rightarrow> ConversionResult \<Rightarrow> ConversionStats" where
  "handleConversionComplete stats result = updateStats stats result"

text \<open>The completion and error events that the application receives, in order.\<close>

datatype conversion_outcome = Succeeded ConversionResult | Failed_with ConversionError

fun applyOutcome :: "ConversionStats \<Rightarrow> conversion_outcome \<Rightarrow> ConversionStats" where
  "applyOutcome stats (Succeeded result) = handleConversionComplete stats result"
| "applyOutcome stats (Failed_with error) = handleConversionError stats error"

section \<open>ImageConverter: compression ratio and error classification\<close>

definition calculateCompressionRatio :: "nat \<Rightarrow> nat \<Rightarrow> int" where
  "calculateCompressionRatio originalSize convertedSize' =
     (if originalSize = 0 then 0
      else mathRound
             (jsMul (jsDiv (jsSub (of_nat originalSize) (of_nat convertedSize'))
                           (of_nat originalSize))
                    100))"

text \<open>
  The formula of the specification: \<^verbatim>\<open>round(((originalSize - convertedSize) / originalSize) * 100)\<close>,
  defined as 0 when \<^verbatim>\<open>originalSize\<close> is 0, in exact arithmetic.
\<close>

definition spec_compressionRatio :: "nat \<Rightarrow> nat \<Rightarrow> int" where
  "spec_compressionRatio originalSize convertedSize' =
     (if originalSize = 0 then 0
      else round ((rat_of_int (int originalSize - int convertedSize') / rat_of_nat originalSize) * 100))"

text \<open>\<^verbatim>\<open>String.prototype.includes\<close>: the second string occurs in the first.\<close>

fun startsWith :: "string \<Rightarrow> string \<Rightarrow> bool" where
  "startsWith s [] = True"
| "startsWith [] (c # sub) = False"
| "startsWith (d # s) (c # sub) = (d = c \<and> startsWith s sub)"

fun includes_str :: "string \<Rightarrow> string \<Rightarrow> bool" where
  "includes_str [] sub = (sub = [])"
| "includes_str (d # s) sub = (startsWith (d # s) sub \<or> includes_str s sub)"

text \<open>
  \<^verbatim>\<open>String(error)\<close>: for an error object, \<^verbatim>\<open>Error.prototype.toString\<close> gives the
  message when the name is empty, the name when the message is empty, and otherwise the
  name, a colon, a space and the message.
\<close>

fun toString :: "js_thrown \<Rightarrow> string" where
  "toString (JsError n m) = (if n = [] then m else if m = [] then n else n @ '': '' @ m)"
| "toString (JsOther s) = s"

definition classify :: "js_thrown \<Rightarrow> ErrorType \<times> error_message" where
  "classify error =
     (case error of
        JsOther s \<Rightarrow> (UNKNOWN_ERROR, UnknownMsg)
      | JsError n m \<Rightarrow>
          if includes_str m ''cancelled'' then (PROCESSING_ERROR, CancelledMsg)
          else if includes_str m ''WebP'' then (BROWSER_COMPATIBILITY, WebPUnsupportedMsg)
          else if includes_str m ''size'' \<or> includes_str m ''large'' then (FILE_TOO_LARGE, TooLargeMsg)
          else (PROCESSING_ERROR, ProcessingFailedMsg m))"

definition createConversionError ::
  "string \<Rightarrow> string \<Rightarrow> js_thrown \<Rightarrow> int \<Rightarrow> ConversionError" where
  "createConversionError id' fileName error now =
     \<lparr> id_CE = id', fileName_CE = fileName, errorType = fst (classify error),
       message_CE = snd (classify error), details = toString error, timestamp = now \<rparr>"

section \<open>ImageConverter: state and events\<close>

datatype event =
    ProgressEvent ProgressInfo
  | CompleteEvent ConversionResult
  | ErrorEvent ConversionError

text \<open>
  The converter's state. \<open>emitted\<close> is the sequence of values handed to
  \<^verbatim>\<open>reportProgress\<close>, \<^verbatim>\<open>notifyConversionComplete\<close> and \<^verbatim>\<open>notifyConversionError\<close>,
  oldest first; each of them calls every callback subscribed to its channel.
  \<^verbatim>\<open>AbortController\<close> objects live in a store: \<open>aborted\<close> gives the flag
  \<^verbatim>\<open>signal.aborted\<close> of the controller at an address, \<open>controllersCreated\<close> is the
  next free address, and the registry \<open>activeConversions\<close> maps a conversion id to the
  address of its controller. A running conversion keeps the address of its own controller,
  so that it sees the flag after the registry entry is gone.
\<close>

record ImageConverter =
  emitted :: "event list"
  activeConversions :: "string \<rightharpoonup> nat"
  aborted :: "nat \<Rightarrow> bool"
  controllersCreated :: nat
  isDisposed_IC :: bool

definition ensureNotDisposed :: "ImageConverter \<Rightarrow> js_thrown option" where
  "ensureNotDisposed c =
     (if isDisposed_IC c then Some (JsError ''Error'' ''ImageConverter has been disposed'') else None)"

definition reportProgress :: "ImageConverter \<Rightarrow> ProgressInfo \<Rightarrow> ImageConverter" where
  "reportProgress c p = c\<lparr>emitted := emitted c @ [ProgressEvent p]\<rparr>"

definition notifyConversionComplete :: "ImageConverter \<Rightarrow> ConversionResult \<Rightarrow> ImageConverter" where
  "notifyConversionComplete c result = c\<lparr>emitted := emitted c @ [CompleteEvent result]\<rparr>"

definition notifyConversionError :: "ImageConverter \<Rightarrow> ConversionError \<Rightarrow> ImageConverter" where
  "notifyConversionError c error = c\<lparr>emitted := emitted c @ [ErrorEvent error]\<rparr>"

definition cancelConversion :: "ImageConverter \<Rightarrow> string \<Rightarrow> js_thrown + ImageConverter" where
  "cancelConversion c id' =
     (case ensureNotDisposed c of
        Some e \<Rightarrow> Inl e
      | None \<Rightarrow>
          (case activeConversions c id' of
             Some abortController' \<Rightarrow>
               Inr (c\<lparr>aborted := (aborted c)(abortController' := True),
                       activeConversions := (activeConversions c)(id' := None)\<rparr>)
           | None \<Rightarrow> Inr c))"

definition checkAborted :: "ImageConverter \<Rightarrow> nat \<Rightarrow> js_thrown option" where
  "checkAborted c controller =
     (if aborted c controller then Some (JsError ''Error'' ''Conversion was cancelled'') else None)"

section \<open>ImageConverter: one conversion\<close>

text \<open>
  \<^verbatim>\<open>convertToWebP\<close> is an asynchronous function with three \<^verbatim>\<open>await\<close>s. What the
  browser and the rest of the page contribute to one call is collected in a record: the
  id that \<^verbatim>\<open>generateId\<close> returns, the readings of the clock, how
  \<^verbatim>\<open>readFileAsImage\<close> and \<^verbatim>\<open>convertToWebPBlob\<close> settle, the two object URLs, and
  whether \<^verbatim>\<open>cancelConversion\<close> is called with this id while an awaited operation is
  pending.
\<close>

record conv_env =
  generatedId :: string
  startNow :: int
  readResult :: "js_thrown + HTMLImageElement"
  cancelledDuringRead :: bool
  cancelledDuringProcess :: bool
  encodeResult :: "js_thrown + Blob"
  cancelledDuringEncode :: bool
  endNow :: int
  newOriginalUrl :: string
  newConvertedUrl :: string
  errorNow :: int

text \<open>The local variables of a call of \<^verbatim>\<open>convertToWebP\<close> that is suspended at an await.\<close>

record conversion =
  conversionId :: string
  abortController :: nat
  file_arg :: FileInfo
  config_arg :: ConversionConfig
  startTime :: int

text \<open>
  The promise of \<^verbatim>\<open>convertToWebP\<close> is rejected with the plain error of
  \<^verbatim>\<open>ensureNotDisposed\<close> (thrown before the \<^verbatim>\<open>try\<close>) or with the
  \<^verbatim>\<open>ConversionError\<close> that the \<^verbatim>\<open>catch\<close> block throws.
\<close>

datatype rejection = Thrown js_thrown | Rejected ConversionError

type_synonym settlement = "rejection + ConversionResult"

definition whilePending :: "bool \<Rightarrow> ImageConverter \<Rightarrow> string \<Rightarrow> ImageConverter" where
  "whilePending cancelled c id' =
     (if cancelled then (case cancelConversion c id' of Inr c' \<Rightarrow> c' | Inl e \<Rightarrow> c) else c)"

text \<open>The \<^verbatim>\<open>catch\<close> block.\<close>

definition catchBlock ::
  "ImageConverter \<Rightarrow> conversion \<Rightarrow> js_thrown \<Rightarrow> int \<Rightarrow> ImageConverter \<times> settlement" where
  "catchBlock c t error now =
     (let c1 = c\<lparr>activeConversions := (activeConversions c)(conversionId t := None)\<rparr>;
          conversionError = createConversionError (conversionId t) (name (file_arg t)) error now
      in (notifyConversionError c1 conversionError, Inl (Rejected conversionError)))"

text \<open>From the call to the first await: the guard, the id, the controller, the first report.\<close>

definition beginConversion ::
  "ImageConverter \<Rightarrow> FileInfo \<Rightarrow> ConversionConfig \<Rightarrow> conv_env
     \<Rightarrow> ImageConverter \<times> (rejection + conversion)" where
  "beginConversion c file' config env =
     (case ensureNotDisposed c of
        Some e \<Rightarrow> (c, Inl (Thrown e))
      | None \<Rightarrow>
          (let conversionId' = generatedId env;
               abortController' = controllersCreated c;
               c1 = c\<lparr>aborted := (aborted c)(abortController' := False),
                       controllersCreated := Suc abortController',
                       activeConversions := (activeConversions c)(conversionId' \<mapsto> abortController')\<rparr>;
               c2 = reportProgress c1
                      \<lparr> id_PI = conversionId', fileName_PI = name file', progress = 0,
                        stage = READING, message_PI = ReadingMsg \<rparr>
           in (c2, Inr \<lparr> conversionId = conversionId', abortController = abortController',
                         file_arg = file', config_arg = config, startTime = startNow env \<rparr>)))"

text \<open>From the settling of \<^verbatim>\<open>readFileAsImage\<close> to the await of \<^verbatim>\<open>processImage\<close>.\<close>

definition afterRead ::
  "conv_env \<Rightarrow> ImageConverter \<Rightarrow> conversion \<Rightarrow> ImageConverter \<times> (settlement + HTMLImageElement)" where
  "afterRead env c t =
     (case readResult env of
        Inl error \<Rightarrow> map_prod id Inl (catchBlock c t error (errorNow env))
      | Inr imageData \<Rightarrow>
          (case checkAborted c (abortController t) of
             Some error \<Rightarrow> map_prod id Inl (catchBlock c t error (errorNow env))
           | None \<Rightarrow>
               (reportProgress c
                  \<lparr> id_PI = conversionId t, fileName_PI = name (file_arg t), progress = 25,
                    stage = PROCESSING, message_PI = ProcessingMsg \<rparr>,
                Inr imageData)))"

text \<open>
  From the settling of \<^verbatim>\<open>processImage\<close>, which returns the image as it is, to the
  await of \<^verbatim>\<open>convertToWebPBlob\<close>.
\<close>

definition afterProcess ::
  "conv_env \<Rightarrow> ImageConverter \<Rightarrow> conversion \<Rightarrow> HTMLImageElement
     \<Rightarrow> ImageConverter \<times> (settlement + HTMLImageElement)" where
  "afterProcess env c t processedImage =
     (case checkAborted c (abortController t) of
        Some error \<Rightarrow> map_prod id Inl (catchBlock c t error (errorNow env))
      | None \<Rightarrow>
          (reportProgress c
             \<lparr> id_PI = conversionId t, fileName_PI = name (file_arg t), progress = 50,
               stage = CONVERTING, message_PI = ConvertingMsg \<rparr>,
           Inr processedImage))"

text \<open>From the settling of \<^verbatim>\<open>convertToWebPBlob\<close> to the return.\<close>

definition afterEncode ::
  "conv_env \<Rightarrow> ImageConverter \<Rightarrow> conversion \<Rightarrow> ImageConverter \<times> settlement" where
  "afterEncode env c t =
     (case encodeResult env of
        Inl error \<Rightarrow> catchBlock c t error (errorNow env)
      | Inr webpBlob \<Rightarrow>
          (case checkAborted c (abortController t) of
             Some error \<Rightarrow> catchBlock c t error (errorNow env)
           | None \<Rightarrow>
               (let c1 = reportProgress c
                           \<lparr> id_PI = conversionId t, fileName_PI = name (file_arg t),
                             progress = 100, stage = FINALIZING, message_PI = FinalizingMsg \<rparr>;
                    processingTime' = endNow env - startTime t;
                    result =
                      \<lparr> id_CR = conversionId t, originalFile = file_arg t,
                        convertedBlob = webpBlob, convertedSize = size_Blob webpBlob,
                        compressionRatio =
                          calculateCompressionRatio (size_FI (file_arg t)) (size_Blob webpBlob),
                        originalUrl = newOriginalUrl env, convertedUrl = newConvertedUrl env,
                        processingTime = processingTime', status = COMPLETED \<rparr>;
                    c2 = c1\<lparr>activeConversions := (activeConversions c1)(conversionId t := None)\<rparr>
                in (notifyConversionComplete c2 result, Inr result))))"

text \<open>
  The whole call, when nothing but the cancellations of \<open>env\<close> runs while an awaited
  operation is pending.
\<close>

definition convertToWebP ::
  "ImageConverter \<Rightarrow> FileInfo \<Rightarrow> ConversionConfig \<Rightarrow> conv_env \<Rightarrow> ImageConverter \<times> settlement" where
  "convertToWebP c file' config env =
     (case beginConversion c file' config env of
        (c0, Inl r) \<Rightarrow> (c0, Inl r)
      | (c0, Inr t) \<Rightarrow>
          (case afterRead env (whilePending (cancelledDuringRead env) c0 (conversionId t)) t of
             (c1, Inl out) \<Rightarrow> (c1, out)
           | (c1, Inr imageData) \<Rightarrow>
               (case afterProcess env
                       (whilePending (cancelledDuringProcess env) c1 (conversionId t)) t imageData of
                  (c2, Inl out) \<Rightarrow> (c2, out)
                | (c2, Inr processedImage) \<Rightarrow>
                    afterEncode env
                      (whilePending (cancelledDuringEncode env) c2 (conversionId t)) t)))"

section \<open>ImageConverter: a batch of conversions\<close>

text \<open>
  \<^verbatim>\<open>convertMultiple\<close> starts the conversions of a chunk one after the other, each running
  up to its first await, and then awaits \<^verbatim>\<open>Promise.all\<close> of their promises. From then
  on the browser resumes one suspended conversion at a time, in an order that the code
  does not control. The state of a batch has one slot for each file: its conversion has
  not been started, or is suspended at one of its three awaits, or has settled.
\<close>

datatype pending = AwaitRead | AwaitProcess HTMLImageElement | AwaitEncode

datatype slot = NotStarted | Running conversion pending | Finished settlement

record batch =
  converter :: ImageConverter
  slots :: "slot list"
  loopIndex :: nat
  results :: "ConversionResult list"
  returned :: bool

text \<open>
  A suspended conversion is resumed when the operation it awaits has settled; the
  environment of the conversion says how, and whether the conversion was cancelled in the
  meantime.
\<close>

definition resume :: "conv_env \<Rightarrow> ImageConverter \<Rightarrow> conversion \<Rightarrow> pending \<Rightarrow> ImageConverter \<times> slot" where
  "resume env c t p =
     (case p of
        AwaitRead \<Rightarrow>
          (case afterRead env (whilePending (cancelledDuringRead env) c (conversionId t)) t of
             (c', Inl out) \<Rightarrow> (c', Finished out)
           | (c', Inr imageData) \<Rightarrow> (c', Running t (AwaitProcess imageData)))
      | AwaitProcess imageData \<Rightarrow>
          (case afterProcess env
                  (whilePending (cancelledDuringProcess env) c (conversionId t)) t imageData of
             (c', Inl out) \<Rightarrow> (c', Finished out)
           | (c', Inr processedImage) \<Rightarrow> (c', Running t AwaitEncode))
      | AwaitEncode \<Rightarrow>
          (case afterEncode env (whilePending (cancelledDuringEncode env) c (conversionId t)) t of
             (c', out) \<Rightarrow> (c', Finished out)))"

text \<open>
  \<^verbatim>\<open>batch.map(file => this.convertToWebP(file, config))\<close> for the chunk
  \<^verbatim>\<open>files.slice(i, i + maxConcurrent)\<close>: the files at the positions from \<open>i\<close> up to, and
  not including, \<open>i + maxConcurrent\<close> or the length of the list.
\<close>

definition startOne ::
  "FileInfo list \<Rightarrow> ConversionConfig \<Rightarrow> (nat \<Rightarrow> conv_env) \<Rightarrow> nat \<Rightarrow> batch \<Rightarrow> batch" where
  "startOne files config envs k b =
     (case beginConversion (converter b) (files ! k) config (envs k) of
        (c', Inl r) \<Rightarrow> b\<lparr>converter := c', slots := (slots b)[k := Finished (Inl r)]\<rparr>
      | (c', Inr t) \<Rightarrow> b\<lparr>converter := c', slots := (slots b)[k := Running t AwaitRead]\<rparr>)"

definition chunkIndices :: "FileInfo list \<Rightarrow> ConversionConfig \<Rightarrow> nat \<Rightarrow> nat list" where
  "chunkIndices files config i =
     [i ..< min (i + maxConcurrentConversions config) (length files)]"

definition startChunk ::
  "FileInfo list \<Rightarrow> ConversionConfig \<Rightarrow> (nat \<Rightarrow> conv_env) \<Rightarrow> batch \<Rightarrow> batch" where
  "startChunk files config envs b =
     fold (startOne files config envs) (chunkIndices files config (loopIndex b)) b"

text \<open>
  \<^verbatim>\<open>Promise.all\<close> of the promises of a chunk: it is rejected as soon as one of them is
  rejected, fulfilled with all the values, in the order of the chunk, once all of them are
  fulfilled, and pending otherwise.
\<close>

datatype promise_all = AllPending | AllRejected | AllFulfilled "ConversionResult list"

fun isRejected :: "slot \<Rightarrow> bool" where
  "isRejected (Finished (Inl r)) = True"
| "isRejected s = False"

fun fulfilledValue :: "slot \<Rightarrow> ConversionResult list" where
  "fulfilledValue (Finished (Inr result)) = [result]"
| "fulfilledValue s = []"

fun isFulfilled :: "slot \<Rightarrow> bool" where
  "isFulfilled (Finished (Inr result)) = True"
| "isFulfilled s = False"

definition promiseAll :: "slot list \<Rightarrow> promise_all" where
  "promiseAll batchPromises =
     (if list_ex isRejected batchPromises then AllRejected
      else if list_all isFulfilled batchPromises
        then AllFulfilled (concat (map fulfilledValue batchPromises))
      else AllPending)"

definition currentChunk :: "ConversionConfig \<Rightarrow> batch \<Rightarrow> slot list" where
  "currentChunk config b = take (maxConcurrentConversions config) (drop (loopIndex b) (slots b))"

text \<open>
  The loop of \<^verbatim>\<open>convertMultiple\<close>, from the head of the loop (\<open>atAwait\<close> is false) or
  from its \<^verbatim>\<open>await\<close> (\<open>atAwait\<close> is true), up to the point where it either is suspended at
  the \<^verbatim>\<open>await\<close> of a chunk that is still pending, or returns. A rejected chunk is
  caught and logged, and the loop goes on with the next chunk; a fulfilled chunk has its
  values pushed to the results. The loop need not reach such a point: the value
  \<open>None\<close> stands for a loop that runs forever.
\<close>

partial_function (option) convertLoop ::
  "FileInfo list \<Rightarrow> ConversionConfig \<Rightarrow> (nat \<Rightarrow> conv_env) \<Rightarrow> bool \<Rightarrow> batch \<Rightarrow> batch option" where
  "convertLoop files config envs atAwait b =
     (if atAwait then
        (case promiseAll (currentChunk config b) of
           AllPending \<Rightarrow> Some b
         | AllRejected \<Rightarrow>
             convertLoop files config envs False
               (b\<lparr>loopIndex := loopIndex b + maxConcurrentConversions config\<rparr>)
         | AllFulfilled batchResults \<Rightarrow>
             convertLoop files config envs False
               (b\<lparr>results := results b @ batchResults,
                   loopIndex := loopIndex b + maxConcurrentConversions config\<rparr>))
      else if loopIndex b < length files
        then convertLoop files config envs True (startChunk files config envs b)
      else Some (b\<lparr>returned := True\<rparr>))"

text \<open>
  The call of \<^verbatim>\<open>convertMultiple\<close>, up to its first suspension or its return. The call
  throws on a disposed converter.
\<close>

definition convertMultiple ::
  "ImageConverter \<Rightarrow> FileInfo list \<Rightarrow> ConversionConfig \<Rightarrow> (nat \<Rightarrow> conv_env)
     \<Rightarrow> (js_thrown + batch) option" where
  "convertMultiple c files config envs =
     (case ensureNotDisposed c of
        Some e \<Rightarrow> Some (Inl e)
      | None \<Rightarrow>
          map_option Inr
            (convertLoop files config envs False
               \<lparr> converter = c, slots = replicate (length files) NotStarted, loopIndex = 0,
                 results = [], returned = False \<rparr>))"

text \<open>
  The browser resumes the conversion of the file at position \<open>k\<close>. When this settles
  the conversion and the loop is suspended at the \<^verbatim>\<open>await\<close> of the chunk of \<open>k\<close>, the
  loop looks at its \<^verbatim>\<open>Promise.all\<close> again. A conversion of a chunk that the loop has
  left settles without the loop taking notice.
\<close>

definition deliver ::
  "FileInfo list \<Rightarrow> ConversionConfig \<Rightarrow> (nat \<Rightarrow> conv_env) \<Rightarrow> nat \<Rightarrow> batch \<Rightarrow> batch option" where
  "deliver files config envs k b =
     (if k < length (slots b) then
        (case slots b ! k of
           Running t p \<Rightarrow>
             (case resume (envs k) (converter b) t p of
                (c', s') \<Rightarrow>
                  (let b1 = b\<lparr>converter := c', slots := (slots b)[k := s']\<rparr>
                   in if \<not> returned b1 \<and> loopIndex b1 \<le> k
                         \<and> k < loopIndex b1 + maxConcurrentConversions config
                      then convertLoop files config envs True b1
                      else Some b1))
         | NotStarted \<Rightarrow> Some b
         | Finished out \<Rightarrow> Some b)
      else Some b)"

text \<open>A schedule: the positions of the conversions that the browser resumes, in order.\<close>

fun deliverAll ::
  "FileInfo list \<Rightarrow> ConversionConfig \<Rightarrow> (nat \<Rightarrow> conv_env) \<Rightarrow> nat list \<Rightarrow> batch \<Rightarrow> batch option" where
  "deliverAll files config envs [] b = Some b"
| "deliverAll files config envs (k # schedule) b =
     (case deliver files config envs k b of
        None \<Rightarrow> None
      | Some b' \<Rightarrow> deliverAll files config envs schedule b')"

definition runBatch ::
  "ImageConverter \<Rightarrow> FileInfo list \<Rightarrow> ConversionConfig \<Rightarrow> (nat \<Rightarrow> conv_env) \<Rightarrow> nat list
     \<Rightarrow> (js_thrown + batch) option" where
  "runBatch c files config envs schedule =
     (case convertMultiple c files config envs of
        None \<Rightarrow> None
      | Some (Inl e) \<Rightarrow> Some (Inl e)
      | Some (Inr b) \<Rightarrow> map_option Inr (deliverAll files config envs schedule b))"

text \<open>What can be observed of a batch.\<close>

fun inFlight :: "slot \<Rightarrow> bool" where
  "inFlight (Running t p) = True"
| "inFlight s = False"

fun isCompleteEvent :: "event \<Rightarrow> bool" where
  "isCompleteEvent (CompleteEvent result) = True"
| "isCompleteEvent e = False"

fun isErrorEvent :: "event \<Rightarrow> bool" where
  "isErrorEvent (ErrorEvent error) = True"
| "isErrorEvent e = False"

fun returnValue :: "(js_thrown + batch) option \<Rightarrow> ConversionResult list option" where
  "returnValue (Some (Inr b)) = (if returned b then Some (results b) else None)"
| "returnValue r = None"

fun eventsOf :: "(js_thrown + batch) option \<Rightarrow> event list" where
  "eventsOf (Some (Inr b)) = emitted (converter b)"
| "eventsOf r = []"

fun slotsOf :: "(js_thrown + batch) option \<Rightarrow> slot list" where
  "slotsOf (Some (Inr b)) = slots b"
| "slotsOf r = []"

section \<open>Example values\<close>

text \<open>Concrete files, handlers and environments, at which the theorems below are evaluated.\<close>

definition exampleHandler :: FileHandler where
  "exampleHandler = \<lparr> selectedFiles = [], isDisposed_FH = False \<rparr>"

definition pngFile :: File where
  "pngFile = \<lparr> name_File = ''a.png'', size_File = 2000, type_File = ''image/png'',
               lastModified_File = 1 \<rparr>"

definition emptyGifFile :: File where
  "emptyGifFile = \<lparr> name_File = ''b.gif'', size_File = 0, type_File = ''image/gif'',
                    lastModified_File = 2 \<rparr>"

definition jpegFile :: File where
  "jpegFile = \<lparr> name_File = ''c.jpg'', size_File = 5000, type_File = ''image/jpeg'',
                lastModified_File = 3 \<rparr>"

definition freshConverter :: ImageConverter where
  "freshConverter =
     \<lparr> emitted = [], activeConversions = Map.empty, aborted = (\<lambda>a. False),
       controllersCreated = 0, isDisposed_IC = False \<rparr>"

text \<open>
  An environment in which the file is read and encoded without error, to a blob of the
  given size, and nothing is cancelled.
\<close>

definition successEnv :: "string \<Rightarrow> nat \<Rightarrow> conv_env" where
  "successEnv id' blobSize =
     \<lparr> generatedId = id', startNow = 100,
       readResult = Inr \<lparr> naturalWidth = 4, naturalHeight = 3 \<rparr>,
       cancelledDuringRead = False, cancelledDuringProcess = False,
       encodeResult = Inr \<lparr> size_Blob = blobSize, type_Blob = ''image/webp'' \<rparr>,
       cancelledDuringEncode = False, endNow = 130,
       newOriginalUrl = ''blob:o'', newConvertedUrl = ''blob:c'', errorNow = 140 \<rparr>"

text \<open>An environment in which the image cannot be loaded.\<close>

definition corruptEnv :: "string \<Rightarrow> conv_env" where
  "corruptEnv id' = (successEnv id' 0)\<lparr>readResult := Inl (JsError ''Error'' ''Failed to load image'')\<rparr>"

definition exampleResult :: ConversionResult where
  "exampleResult =
     \<lparr> id_CR = ''id1'', originalFile = toFileInfo pngFile,
       convertedBlob = \<lparr> size_Blob = 800, type_Blob = ''image/webp'' \<rparr>, convertedSize = 800,
       compressionRatio = 60, originalUrl = ''blob:o'', convertedUrl = ''blob:c'',
       processingTime = 30, status = COMPLETED \<rparr>"

text \<open>
  Two conversions have been started, with the ids \<^verbatim>\<open>id1\<close> and \<^verbatim>\<open>id2\<close>, and
  \<^verbatim>\<open>cancelConversion\<close> has been called with \<^verbatim>\<open>id1\<close>.
\<close>

definition firstConversion :: conversion where
  "firstConversion =
     \<lparr> conversionId = ''id1'', abortController = 0, file_arg = toFileInfo pngFile,
       config_arg = DEFAULT_CONVERSION_CONFIG, startTime = 100 \<rparr>"

definition twoStartedOneCancelled :: ImageConverter where
  "twoStartedOneCancelled =
     whilePending True
       (fst (beginConversion
               (fst (beginConversion freshConverter (toFileInfo pngFile) DEFAULT_CONVERSION_CONFIG
                       (successEnv ''id1'' 800)))
               (toFileInfo jpegFile) DEFAULT_CONVERSION_CONFIG (successEnv ''id2'' 900)))
       ''id1''"

text \<open>The results of the completed conversions among the outcomes that the application saw.\<close>

fun succeededResults :: "conversion_outcome list \<Rightarrow> ConversionResult list" where
  "succeededResults [] = []"
| "succeededResults (Succeeded result # outcomes) = result # succeededResults outcomes"
| "succeededResults (Failed_with error # outcomes) = succeededResults outcomes"

text \<open>
  A batch of three files of which the second cannot be decoded, and a batch of four files
  of which the first cannot be decoded.
\<close>

definition corruptPngFile :: File where
  "corruptPngFile = \<lparr> name_File = ''bad.png'', size_File = 3000, type_File = ''image/png'',
                      lastModified_File = 4 \<rparr>"

definition threeFiles :: "FileInfo list" where
  "threeFiles = [toFileInfo pngFile, toFileInfo corruptPngFile, toFileInfo jpegFile]"

definition secondFails :: "nat \<Rightarrow> conv_env" where
  "secondFails k =
     (if k = 0 then successEnv ''id1'' 800
      else if k = 1 then corruptEnv ''id2''
      else successEnv ''id3'' 900)"

definition thirdResult :: ConversionResult where
  "thirdResult =
     \<lparr> id_CR = ''id3'', originalFile = toFileInfo jpegFile,
       convertedBlob = \<lparr> size_Blob = 900, type_Blob = ''image/webp'' \<rparr>, convertedSize = 900,
       compressionRatio = 82, originalUrl = ''blob:o'', convertedUrl = ''blob:c'',
       processingTime = 30, status = COMPLETED \<rparr>"

definition fourFiles :: "FileInfo list" where
  "fourFiles =
     [toFileInfo corruptPngFile, toFileInfo pngFile, toFileInfo jpegFile, toFileInfo pngFile]"

definition firstFails :: "nat \<Rightarrow> conv_env" where
  "firstFails k =
     (if k = 0 then corruptEnv ''id1''
      else if k = 1 then successEnv ''id2'' 800
      else if k = 2 then successEnv ''id3'' 900
      else successEnv ''id4'' 800)"

definition twoAtATime :: ConversionConfig where
  "twoAtATime = DEFAULT_CONVERSION_CONFIG\<lparr>maxConcurrentConversions := 2\<rparr>"

text \<open>The result of converting the empty file, should the browser decode it.\<close>

definition emptyFileResult :: ConversionResult where
  "emptyFileResult =
     \<lparr> id_CR = ''id5'', originalFile = toFileInfo emptyGifFile,
       convertedBlob = \<lparr> size_Blob = 800, type_Blob = ''image/webp'' \<rparr>, convertedSize = 800,
       compressionRatio = 0, originalUrl = ''blob:o'', convertedUrl = ''blob:c'',
       processingTime = 30, status = COMPLETED \<rparr>"

text \<open>
  A file of 200 bytes that is converted to a blob of 171 bytes: the exact percentage is
  14.5, the product computed in doubles is just below it.
\<close>

definition tieFile :: File where
  "tieFile = \<lparr> name_File = ''t.png'', size_File = 200, type_File = ''image/png'',
               lastModified_File = 5 \<rparr>"

definition tieResult :: ConversionResult where
  "tieResult =
     \<lparr> id_CR = ''id6'', originalFile = toFileInfo tieFile,
       convertedBlob = \<lparr> size_Blob = 171, type_Blob = ''image/webp'' \<rparr>, convertedSize = 171,
       compressionRatio = 14, originalUrl = ''blob:o'', convertedUrl = ''blob:c'',
       processingTime = 30, status = COMPLETED \<rparr>"

text \<open>A result with a given compression ratio.\<close>

definition resultWithRatio :: "int \<Rightarrow> ConversionResult" where
  "resultWithRatio r = exampleResult\<lparr>compressionRatio := r\<rparr>"

section \<open>FileHandler: theorems\<close>

lemma acceptLoop_map: "acceptLoop files acc = acc @ map toFileInfo files"
  by (induction files arbitrary: acc) simp_all

lemma validateLoop_concat:
  "validateLoop files errs warns =
     (errs @ concat (map fileErrors files), warns @ concat (map fileWarnings files))"
  by (induction files arbitrary: errs warns) (simp_all add: validateSingleFile_def)

lemma validateFiles_eq:
  "\<not> isDisposed_FH h \<Longrightarrow>
   validateFiles h files =
     Inr \<lparr> isValid = (countErrors files @ concat (map fileErrors files) = []),
           errors = countErrors files @ concat (map fileErrors files),
           warnings = concat (map fileWarnings files) \<rparr>"
  by (simp add: validateFiles_def ensureNotDisposed_FH_def validateLoop_concat)

lemma fileErrors_withinPolicy: "withinPolicy fileInfo \<Longrightarrow> fileErrors fileInfo = []"
  by (auto simp: withinPolicy_def fileErrors_def SUPPORTED_FORMATS_def MAX_FILE_SIZE_MB_def)

lemma fileErrors_violating: "(fileErrors fileInfo = []) = (\<not> violating fileInfo)"
  by (auto simp: violating_def wrongFormat_def oversized_def emptyFile_def fileErrors_def)

lemma concat_fileErrors_Nil:
  "list_all withinPolicy files \<Longrightarrow> concat (map fileErrors files) = []"
  by (induction files) (simp_all add: fileErrors_withinPolicy)

lemma length_fileErrors:
  "length (fileErrors f) =
     (if wrongFormat f then 1 else 0) + (if oversized f then 1 else 0) + (if emptyFile f then 1 else 0)"
  by (simp add: fileErrors_def wrongFormat_def oversized_def emptyFile_def)

lemma length_concat_fileErrors:
  "length (concat (map fileErrors files)) =
     length (filter wrongFormat files) + length (filter oversized files)
       + length (filter emptyFile files)"
  by (induction files) (simp_all add: length_fileErrors)

text \<open>
  Claim C10. On a handler that has not been disposed, \<^verbatim>\<open>acceptFiles\<close> returns, for every
  list of files, a list of descriptors of the same length and in the same order, each with
  the file itself and the name, size, type and modification time of the file at its
  position. No file is inspected or rejected: the result does not depend on what the
  files are.
\<close>

theorem acceptFiles_descriptors:
  assumes "\<not> isDisposed_FH h"
  shows "\<exists>fileInfos. acceptFiles h files = Inr fileInfos
           \<and> length fileInfos = length files
           \<and> (\<forall>i < length files.
                 file_FI (fileInfos ! i) = files ! i
               \<and> name (fileInfos ! i) = name_File (files ! i)
               \<and> size_FI (fileInfos ! i) = size_File (files ! i)
               \<and> type_FI (fileInfos ! i) = type_File (files ! i)
               \<and> lastModified (fileInfos ! i) = lastModified_File (files ! i))"
  using assms
  by (simp add: acceptFiles_def ensureNotDisposed_FH_def acceptLoop_map toFileInfo_def)

theorem acceptFiles_descriptors_witness:
  "\<not> isDisposed_FH exampleHandler
   \<and> acceptFiles exampleHandler [emptyGifFile, pngFile]
       = Inr [\<lparr> file_FI = emptyGifFile, name = ''b.gif'', size_FI = 0, type_FI = ''image/gif'',
                lastModified = 2 \<rparr>,
              \<lparr> file_FI = pngFile, name = ''a.png'', size_FI = 2000, type_FI = ''image/png'',
                lastModified = 1 \<rparr>]"
proof -
  have live: "\<not> isDisposed_FH exampleHandler"
    by (simp add: exampleHandler_def)
  from acceptFiles_descriptors [OF live, of "[emptyGifFile, pngFile]"]
  obtain fileInfos where r: "acceptFiles exampleHandler [emptyGifFile, pngFile] = Inr fileInfos"
    and len: "length fileInfos = 2"
    and fields: "\<forall>i < 2. file_FI (fileInfos ! i) = [emptyGifFile, pngFile] ! i
               \<and> name (fileInfos ! i) = name_File ([emptyGifFile, pngFile] ! i)
               \<and> size_FI (fileInfos ! i) = size_File ([emptyGifFile, pngFile] ! i)
               \<and> type_FI (fileInfos ! i) = type_File ([emptyGifFile, pngFile] ! i)
               \<and> lastModified (fileInfos ! i) = lastModified_File ([emptyGifFile, pngFile] ! i)"
    by auto
  from len obtain a b where ab: "fileInfos = [a, b]"
    by (cases fileInfos; cases "tl fileInfos"; auto)
  from fields [rule_format, of 0] fields [rule_format, of 1] ab
  have "a = \<lparr> file_FI = emptyGifFile, name = ''b.gif'', size_FI = 0, type_FI = ''image/gif'',
                lastModified = 2 \<rparr>"
    and "b = \<lparr> file_FI = pngFile, name = ''a.png'', size_FI = 2000, type_FI = ''image/png'',
                lastModified = 1 \<rparr>"
    by (simp_all add: emptyGifFile_def pngFile_def)
  with r ab live show ?thesis by simp
qed

text \<open>
  Claim C5. On a handler that has not been disposed, \<^verbatim>\<open>validateFiles\<close> returns a verdict
  whose flag \<open>isValid\<close> holds exactly when its error list is empty; and for a batch that
  is not empty, has at most 20 files, and whose files all have an allow-listed type and a
  size that is positive and at most 10 MiB, the verdict is valid and its error list is empty.
\<close>

theorem validateFiles_valid_iff_no_errors:
  assumes "\<not> isDisposed_FH h"
  shows "\<exists>v. validateFiles h files = Inr v
           \<and> (isValid v \<longleftrightarrow> errors v = [])
           \<and> (files \<noteq> [] \<and> length files \<le> 20
                \<and> (\<forall>f \<in> set files.
                      type_FI f \<in> {''image/png'', ''image/jpeg'', ''image/jpg''}
                    \<and> 0 < size_FI f \<and> size_FI f \<le> 10 * 1024 * 1024)
              \<longrightarrow> isValid v \<and> errors v = [])"
proof -
  have "countErrors files @ concat (map fileErrors files) = []"
    if "files \<noteq> []" "length files \<le> 20"
      "\<forall>f \<in> set files. type_FI f \<in> {''image/png'', ''image/jpeg'', ''image/jpg''}
                    \<and> 0 < size_FI f \<and> size_FI f \<le> 10 * 1024 * 1024"
  proof -
    from that(3) have "list_all withinPolicy files"
      by (simp add: list_all_iff withinPolicy_def)
    then have "concat (map fileErrors files) = []"
      by (rule concat_fileErrors_Nil)
    moreover from that(1,2) have "countErrors files = []"
      by (simp add: countErrors_def MAX_FILES_PER_BATCH_def)
    ultimately show ?thesis by simp
  qed
  with assms show ?thesis
    by (simp add: validateFiles_eq)
qed

theorem validateFiles_valid_iff_no_errors_witness:
  "\<not> isDisposed_FH exampleHandler
   \<and> validateFiles exampleHandler [toFileInfo pngFile, toFileInfo jpegFile]
       = Inr \<lparr> isValid = True, errors = [], warnings = [] \<rparr>"
proof -
  have live: "\<not> isDisposed_FH exampleHandler"
    by (simp add: exampleHandler_def)
  from validateFiles_valid_iff_no_errors [OF live, of "[toFileInfo pngFile, toFileInfo jpegFile]"]
  obtain v where v: "validateFiles exampleHandler [toFileInfo pngFile, toFileInfo jpegFile] = Inr v"
    and ok: "isValid v" "errors v = []"
    by (auto simp: toFileInfo_def pngFile_def jpegFile_def)
  have "warnings v = []"
    using v live
    by (auto simp: validateFiles_eq fileWarnings_def toFileInfo_def pngFile_def jpegFile_def)
  with v ok live show ?thesis by simp
qed

text \<open>
  Claim C6, as stated, fails: a single file that is both of a wrong format and empty gives
  two entries of the error list, not one.
\<close>

theorem validateFiles_one_entry_per_file_counterexample:
  "violating (toFileInfo emptyGifFile)
   \<and> validateFiles exampleHandler [toFileInfo emptyGifFile]
       = Inr \<lparr> isValid = False,
               errors = [UnsupportedFormatMsg ''b.gif'' ''image/gif'', EmptyFileMsg ''b.gif''],
               warnings = [] \<rparr>
   \<and> length [UnsupportedFormatMsg ''b.gif'' ''image/gif'', EmptyFileMsg ''b.gif'']
       \<noteq> length (filter violating [toFileInfo emptyGifFile])"
  by (simp add: validateFiles_def ensureNotDisposed_FH_def exampleHandler_def toFileInfo_def
      emptyGifFile_def countErrors_def validateSingleFile_def fileErrors_def fileWarnings_def
      violating_def wrongFormat_def oversized_def emptyFile_def SUPPORTED_FORMATS_def
      MAX_FILE_SIZE_MB_def MAX_FILES_PER_BATCH_def)

text \<open>
  Claim C6, amended. For every batch with at least one oversized, empty or wrong-format
  file, the verdict is not valid; its error list is the entries for the size of the batch
  followed by the entries of each file, in the order of the batch, nothing being dropped
  after a first violation. A file contributes one entry for each rule it breaks: the
  number of entries is the number of wrong-format files plus the number of oversized files
  plus the number of empty files (plus the batch entries), so a violating file has one or
  two entries and a file within the policy has none.
\<close>

theorem validateFiles_errors_accumulate:
  assumes "\<not> isDisposed_FH h" and "\<exists>f \<in> set files. violating f"
  shows "\<exists>v. validateFiles h files = Inr v
           \<and> \<not> isValid v
           \<and> errors v = countErrors files @ concat (map fileErrors files)
           \<and> length (errors v) =
               length (countErrors files)
               + length (filter wrongFormat files)
               + length (filter oversized files)
               + length (filter emptyFile files)
           \<and> (\<forall>f \<in> set files. violating f \<longrightarrow> length (fileErrors f) \<in> {1, 2})
           \<and> (\<forall>f \<in> set files. \<not> violating f \<longrightarrow> fileErrors f = [])"
proof -
  from assms(2) have "concat (map fileErrors files) \<noteq> []"
    by (auto simp: fileErrors_violating)
  moreover have "length (fileErrors f) \<in> {1, 2}" if "violating f" for f
    using that
    by (auto simp: length_fileErrors violating_def oversized_def emptyFile_def MAX_FILE_SIZE_MB_def)
  moreover have "fileErrors f = []" if "\<not> violating f" for f
    using that by (simp add: fileErrors_violating)
  ultimately show ?thesis
    using assms(1) by (simp add: validateFiles_eq length_concat_fileErrors)
qed

theorem validateFiles_errors_accumulate_witness:
  "\<not> isDisposed_FH exampleHandler
   \<and> violating (toFileInfo emptyGifFile)
   \<and> validateFiles exampleHandler [toFileInfo emptyGifFile, toFileInfo pngFile]
       = Inr \<lparr> isValid = False,
               errors = [UnsupportedFormatMsg ''b.gif'' ''image/gif'', EmptyFileMsg ''b.gif''],
               warnings = [] \<rparr>"
proof -
  have live: "\<not> isDisposed_FH exampleHandler"
    by (simp add: exampleHandler_def)
  have gif: "violating (toFileInfo emptyGifFile)"
    by (simp add: violating_def emptyFile_def toFileInfo_def emptyGifFile_def)
  then have bad: "\<exists>f \<in> set [toFileInfo emptyGifFile, toFileInfo pngFile]. violating f"
    by simp
  from validateFiles_errors_accumulate [OF live bad]
  obtain v where v: "validateFiles exampleHandler [toFileInfo emptyGifFile, toFileInfo pngFile] = Inr v"
    and inv: "\<not> isValid v"
    and errs: "errors v = countErrors [toFileInfo emptyGifFile, toFileInfo pngFile]
                 @ concat (map fileErrors [toFileInfo emptyGifFile, toFileInfo pngFile])"
    by blast
  from errs have "errors v = [UnsupportedFormatMsg ''b.gif'' ''image/gif'', EmptyFileMsg ''b.gif'']"
    by (simp add: countErrors_def fileErrors_def toFileInfo_def emptyGifFile_def pngFile_def
        SUPPORTED_FORMATS_def MAX_FILE_SIZE_MB_def MAX_FILES_PER_BATCH_def)
  moreover have "warnings v = []"
    using v live
    by (auto simp: validateFiles_eq fileWarnings_def toFileInfo_def pngFile_def emptyGifFile_def)
  ultimately show ?thesis
    using v inv live gif by simp
qed

section \<open>ImageConverter: theorems on one conversion\<close>

lemma emitted_whilePending [simp]: "emitted (whilePending b c i) = emitted c"
  by (simp add: whilePending_def cancelConversion_def split: option.splits)

lemma isDisposed_whilePending [simp]: "isDisposed_IC (whilePending b c i) = isDisposed_IC c"
  by (simp add: whilePending_def cancelConversion_def split: option.splits)

lemma beginConversion_Inr:
  "beginConversion c file' config env = (c0, Inr t) \<Longrightarrow>
     \<not> isDisposed_IC c
     \<and> emitted c0 = emitted c @ [ProgressEvent \<lparr> id_PI = generatedId env, fileName_PI = name file',
                                   progress = 0, stage = READING, message_PI = ReadingMsg \<rparr>]
     \<and> conversionId t = generatedId env \<and> file_arg t = file' \<and> startTime t = startNow env"
  by (auto simp: beginConversion_def ensureNotDisposed_def reportProgress_def Let_def
      split: if_splits)

lemma afterRead_Inr:
  "afterRead env c t = (c1, Inr imageData) \<Longrightarrow>
     emitted c1 = emitted c @ [ProgressEvent \<lparr> id_PI = conversionId t, fileName_PI = name (file_arg t),
                                  progress = 25, stage = PROCESSING, message_PI = ProcessingMsg \<rparr>]"
  by (auto simp: afterRead_def reportProgress_def catchBlock_def Let_def split: sum.splits option.splits)

lemma afterRead_Inl:
  "afterRead env c t = (c1, Inl out) \<Longrightarrow> \<exists>e. out = Inl (Rejected e)"
  by (auto simp: afterRead_def catchBlock_def Let_def split: sum.splits option.splits)

lemma afterProcess_Inr:
  "afterProcess env c t img = (c1, Inr processedImage) \<Longrightarrow>
     emitted c1 = emitted c @ [ProgressEvent \<lparr> id_PI = conversionId t, fileName_PI = name (file_arg t),
                                  progress = 50, stage = CONVERTING, message_PI = ConvertingMsg \<rparr>]"
  by (auto simp: afterProcess_def reportProgress_def catchBlock_def Let_def split: sum.splits option.splits)

lemma afterProcess_Inl:
  "afterProcess env c t img = (c1, Inl out) \<Longrightarrow> \<exists>e. out = Inl (Rejected e)"
  by (auto simp: afterProcess_def catchBlock_def Let_def split: sum.splits option.splits)

lemma afterEncode_Inr:
  "afterEncode env c t = (c1, Inr result) \<Longrightarrow>
     emitted c1 = emitted c @ [ProgressEvent \<lparr> id_PI = conversionId t, fileName_PI = name (file_arg t),
                                  progress = 100, stage = FINALIZING, message_PI = FinalizingMsg \<rparr>,
                               CompleteEvent result]
     \<and> id_CR result = conversionId t \<and> originalFile result = file_arg t
     \<and> convertedSize result = size_Blob (convertedBlob result)
     \<and> encodeResult env = Inr (convertedBlob result)
     \<and> compressionRatio result = calculateCompressionRatio (size_FI (file_arg t)) (convertedSize result)
     \<and> processingTime result = endNow env - startTime t
     \<and> status result = COMPLETED"
  by (auto simp: afterEncode_def catchBlock_def reportProgress_def notifyConversionComplete_def Let_def
      split: sum.splits option.splits)

lemma convertToWebP_success:
  assumes "snd (convertToWebP c file' config env) = Inr result"
  shows "emitted (fst (convertToWebP c file' config env)) =
           emitted c @
             [ProgressEvent \<lparr> id_PI = generatedId env, fileName_PI = name file', progress = 0,
                              stage = READING, message_PI = ReadingMsg \<rparr>,
              ProgressEvent \<lparr> id_PI = generatedId env, fileName_PI = name file', progress = 25,
                              stage = PROCESSING, message_PI = ProcessingMsg \<rparr>,
              ProgressEvent \<lparr> id_PI = generatedId env, fileName_PI = name file', progress = 50,
                              stage = CONVERTING, message_PI = ConvertingMsg \<rparr>,
              ProgressEvent \<lparr> id_PI = generatedId env, fileName_PI = name file', progress = 100,
                              stage = FINALIZING, message_PI = FinalizingMsg \<rparr>,
              CompleteEvent result]"
    and "id_CR result = generatedId env" and "originalFile result = file'"
    and "compressionRatio result = calculateCompressionRatio (size_FI file') (convertedSize result)"
    and "processingTime result = endNow env - startNow env"
    and "status result = COMPLETED"
    and "convertedSize result = size_Blob (convertedBlob result)"
    and "encodeResult env = Inr (convertedBlob result)"
proof -
  obtain c0 b where b: "beginConversion c file' config env = (c0, b)"
    by (cases "beginConversion c file' config env")
  from assms b obtain t where t: "b = Inr t"
    by (cases b) (auto simp: convertToWebP_def)
  let ?c0 = "whilePending (cancelledDuringRead env) c0 (conversionId t)"
  obtain c1 r1 where r1: "afterRead env ?c0 t = (c1, r1)"
    by (cases "afterRead env ?c0 t")
  from assms b t r1 obtain img where img: "r1 = Inr img"
    by (cases r1) (auto simp: convertToWebP_def dest: afterRead_Inl)
  let ?c1 = "whilePending (cancelledDuringProcess env) c1 (conversionId t)"
  obtain c2 r2 where r2: "afterProcess env ?c1 t img = (c2, r2)"
    by (cases "afterProcess env ?c1 t img")
  from assms b t r1 img r2 obtain img2 where img2: "r2 = Inr img2"
    by (cases r2) (auto simp: convertToWebP_def dest: afterProcess_Inl)
  let ?c2 = "whilePending (cancelledDuringEncode env) c2 (conversionId t)"
  obtain c3 where r3: "afterEncode env ?c2 t = (c3, Inr result)"
    using assms b t r1 img r2 img2
    by (cases "afterEncode env ?c2 t") (auto simp: convertToWebP_def)
  have whole: "convertToWebP c file' config env = (c3, Inr result)"
    using b t r1 img r2 img2 r3 by (simp add: convertToWebP_def)
  note B = beginConversion_Inr [OF b [unfolded t]]
  note R = afterRead_Inr [OF r1 [unfolded img]]
  note P = afterProcess_Inr [OF r2 [unfolded img2]]
  note E = afterEncode_Inr [OF r3]
  show "emitted (fst (convertToWebP c file' config env)) =
           emitted c @
             [ProgressEvent \<lparr> id_PI = generatedId env, fileName_PI = name file', progress = 0,
                              stage = READING, message_PI = ReadingMsg \<rparr>,
              ProgressEvent \<lparr> id_PI = generatedId env, fileName_PI = name file', progress = 25,
                              stage = PROCESSING, message_PI = ProcessingMsg \<rparr>,
              ProgressEvent \<lparr> id_PI = generatedId env, fileName_PI = name file', progress = 50,
                              stage = CONVERTING, message_PI = ConvertingMsg \<rparr>,
              ProgressEvent \<lparr> id_PI = generatedId env, fileName_PI = name file', progress = 100,
                              stage = FINALIZING, message_PI = FinalizingMsg \<rparr>,
              CompleteEvent result]"
    using whole B R P E by simp
  show "id_CR result = generatedId env" using B E by simp
  show "originalFile result = file'" using B E by simp
  show "compressionRatio result = calculateCompressionRatio (size_FI file') (convertedSize result)"
    using B E by simp
  show "processingTime result = endNow env - startNow env" using B E by simp
  show "status result = COMPLETED" using E by simp
  show "convertedSize result = size_Blob (convertedBlob result)" using E by simp
  show "encodeResult env = Inr (convertedBlob result)" using E by simp
qed

lemmas pipeline_defs =
  convertToWebP_def beginConversion_def afterRead_def afterProcess_def afterEncode_def
  catchBlock_def whilePending_def cancelConversion_def ensureNotDisposed_def checkAborted_def
  reportProgress_def notifyConversionComplete_def notifyConversionError_def
  createConversionError_def classify_def Let_def

lemmas js_defs = mathRound_def jsMul_def jsDiv_def jsSub_def jsAdd_def

lemma toDouble_0 [simp]: "toDouble 0 = 0"
  by (simp add: toDouble_def)

lemma calculateCompressionRatio_examples:
  "calculateCompressionRatio 2000 800 = 60"
  "calculateCompressionRatio 5000 900 = 82"
  "calculateCompressionRatio 200 171 = 14"
  "calculateCompressionRatio 0 800 = 0"
     apply (simp add: calculateCompressionRatio_def js_defs, code_simp)
    apply (simp add: calculateCompressionRatio_def js_defs, code_simp)
   apply (simp add: calculateCompressionRatio_def js_defs, code_simp)
  apply (simp add: calculateCompressionRatio_def)
  done

lemma spec_compressionRatio_2000_800: "spec_compressionRatio 2000 800 = 60"
  by (simp add: spec_compressionRatio_def; code_simp)

lemma spec_compressionRatio_200_171: "spec_compressionRatio 200 171 = 15"
  by (simp add: spec_compressionRatio_def; code_simp)

text \<open>
  How far the ratio computed in doubles is from the formula read exactly. Rounding to the
  nearest double changes a number by at most the fraction \<open>2\<^sup>-\<^sup>5\<^sup>3\<close> of itself. For sizes
  below \<open>2\<^sup>4\<^sup>2\<close> bytes the percentage computed in doubles is therefore closer to the exact
  percentage than \<open>1 / (2 * originalSize)\<close>, which is the least distance of an exact
  percentage from a half-integer that it is not equal to. So \<^verbatim>\<open>Math.round\<close> of the two can
  differ only when the exact percentage is a half-integer, and then by one downwards.
\<close>

lemma halvings_bounds:
  "1 \<le> x \<Longrightarrow> 2 ^ halvings x \<le> x \<and> x < 2 * 2 ^ halvings x"
proof (induction x rule: halvings.induct)
  case (1 x)
  show ?case
  proof (cases "2 \<le> x")
    case True
    then have h: "halvings x = Suc (halvings (x / 2))"
      by (subst halvings.simps) simp
    from True have "1 \<le> x / 2" by simp
    from 1(1) [OF True this] show ?thesis
      by (simp add: h field_simps)
  next
    case False
    then have "halvings x = 0" by (subst halvings.simps) simp
    with False 1(2) show ?thesis by simp
  qed
qed

lemma doublings_bounds:
  "0 < x \<Longrightarrow> x < 1 \<Longrightarrow> 1 \<le> x * 2 ^ doublings x \<and> x * 2 ^ doublings x < 2"
proof (induction x rule: doublings.induct)
  case (1 x)
  from 1(2,3) have h: "doublings x = Suc (doublings (x * 2))"
    by (subst doublings.simps) simp
  show ?case
  proof (cases "x * 2 < 1")
    case True
    from 1(1) [OF _ _ True] 1(2,3) show ?thesis
      by (simp add: h mult.assoc)
  next
    case False
    then have "doublings (x * 2) = 0" by (subst doublings.simps) simp
    with False 1(2,3) show ?thesis by (simp add: h)
  qed
qed

lemma ulp_bounds:
  assumes "x \<noteq> 0"
  shows "0 < ulp x" and "ulp x * 2 ^ 52 \<le> \<bar>x\<bar>"
proof -
  show "0 < ulp x" by (simp add: ulp_def)
  show "ulp x * 2 ^ 52 \<le> \<bar>x\<bar>"
  proof (cases "1 \<le> \<bar>x\<bar>")
    case True
    with halvings_bounds [OF True] show ?thesis by (simp add: ulp_def)
  next
    case False
    with assms have "0 < \<bar>x\<bar>" "\<bar>x\<bar> < 1" by simp_all
    from doublings_bounds [OF this] have "1 \<le> \<bar>x\<bar> * 2 ^ doublings \<bar>x\<bar>" by simp
    then have "1 / 2 ^ doublings \<bar>x\<bar> \<le> \<bar>x\<bar>"
      by (simp add: field_simps)
    with False show ?thesis by (simp add: ulp_def)
  qed
qed

lemma roundTiesToEven_error: "\<bar>of_int (roundTiesToEven r) - r\<bar> \<le> 1 / 2"
proof -
  have f: "of_int \<lfloor>r\<rfloor> \<le> r" "r < of_int \<lfloor>r\<rfloor> + 1" by linarith+
  consider (lo) "r - of_int \<lfloor>r\<rfloor> < 1 / 2"
    | (hi) "1 / 2 < r - of_int \<lfloor>r\<rfloor>"
    | (tie) "r - of_int \<lfloor>r\<rfloor> = 1 / 2"
    by linarith
  then show ?thesis
  proof cases
    case lo
    then have "roundTiesToEven r = \<lfloor>r\<rfloor>" by (simp add: roundTiesToEven_def)
    with lo f show ?thesis by simp
  next
    case hi
    then have "roundTiesToEven r = \<lfloor>r\<rfloor> + 1" by (simp add: roundTiesToEven_def)
    with hi f show ?thesis by simp
  next
    case tie
    then have "roundTiesToEven r = \<lfloor>r\<rfloor> \<or> roundTiesToEven r = \<lfloor>r\<rfloor> + 1"
      by (simp add: roundTiesToEven_def)
    with tie show ?thesis by auto
  qed
qed

lemma toDouble_error: "\<bar>toDouble x - x\<bar> \<le> \<bar>x\<bar> / 2 ^ 53"
proof (cases "x = 0")
  case True
  then show ?thesis by (simp add: toDouble_def)
next
  case False
  let ?u = "ulp x"
  from ulp_bounds [OF False] have u: "0 < ?u" "?u * 2 ^ 52 \<le> \<bar>x\<bar>" by simp_all
  have "toDouble x - x = ?u * (of_int (roundTiesToEven (x / ?u)) - x / ?u)"
    using False u(1) by (simp add: toDouble_def field_simps)
  then have "\<bar>toDouble x - x\<bar> = ?u * \<bar>of_int (roundTiesToEven (x / ?u)) - x / ?u\<bar>"
    using u(1) by (simp add: abs_mult)
  also have "\<dots> \<le> ?u * (1 / 2)"
    using u(1) roundTiesToEven_error [of "x / ?u"] by (intro mult_left_mono) simp_all
  also have "\<dots> \<le> \<bar>x\<bar> / 2 ^ 53"
    using u(2) by simp
  finally show ?thesis .
qed

text \<open>the computed percentage is close to the exact one\<close>

lemma percentage_error:
  fixes D :: int and n :: nat
  assumes n: "0 < n" and D: "\<bar>D\<bar> < 2 ^ 42"
  shows "\<bar>toDouble (toDouble (toDouble (of_int D) / of_nat n) * 100)
           - of_int D / of_nat n * 100\<bar> < 1 / (2 * of_nat n)"
proof -
  define e :: rat where "e = 1 / 2 ^ 53"
  define d :: rat where "d = \<bar>of_int D\<bar>"
  define m :: rat where "m = of_nat n"
  define a where "a = toDouble (of_int D)"
  define b where "b = toDouble (a / m)"
  define y where "y = toDouble (b * 100)"
  have m: "0 < m" using n by (simp add: m_def)
  have e: "0 < e" "e \<le> 1" by (simp_all add: e_def)
  have d0: "0 \<le> d" by (simp add: d_def)
  have ea: "\<bar>a - of_int D\<bar> \<le> d * e"
    using toDouble_error [of "of_int D"] by (simp add: a_def d_def e_def)
  then have a: "\<bar>a\<bar> \<le> 2 * d"
  proof -
    have "\<bar>a\<bar> \<le> \<bar>a - of_int D\<bar> + d" by (simp add: d_def)
    also have "\<dots> \<le> d * e + d" using ea by simp
    also have "\<dots> \<le> d * 1 + d" using e d0 by (intro add_right_mono mult_left_mono) simp_all
    finally show ?thesis by simp
  qed
  have eb: "\<bar>b - a / m\<bar> \<le> \<bar>a\<bar> / m * e"
    using toDouble_error [of "a / m"] m by (simp add: b_def e_def abs_divide)
  have am: "\<bar>a\<bar> / m \<le> 2 * d / m"
    using a m by (simp add: divide_right_mono)
  have eb': "\<bar>b - a / m\<bar> \<le> 2 * d / m * e"
  proof -
    have "\<bar>a\<bar> / m * e \<le> 2 * d / m * e"
      using am e by (intro mult_right_mono) simp_all
    with eb show ?thesis by linarith
  qed
  have b: "\<bar>b\<bar> \<le> 4 * d / m"
  proof -
    have am_abs: "\<bar>a / m\<bar> = \<bar>a\<bar> / m" using m by simp
    have "\<bar>b\<bar> \<le> \<bar>b - a / m\<bar> + \<bar>a / m\<bar>" by linarith
    then have "\<bar>b\<bar> \<le> \<bar>b - a / m\<bar> + \<bar>a\<bar> / m" unfolding am_abs .
    also have "\<dots> \<le> 2 * d / m * e + 2 * d / m" using eb' am by simp
    also have "\<dots> \<le> 2 * d / m * 1 + 2 * d / m"
      using e d0 m by (intro add_right_mono mult_left_mono) simp_all
    finally show ?thesis by simp
  qed
  have ey: "\<bar>y - b * 100\<bar> \<le> 400 * d / m * e"
  proof -
    have "\<bar>y - b * 100\<bar> \<le> \<bar>b * 100\<bar> * e"
      using toDouble_error [of "b * 100"] by (simp add: y_def e_def)
    also have "\<dots> \<le> (4 * d / m * 100) * e"
      using b e by (intro mult_right_mono) (simp_all add: abs_mult)
    finally show ?thesis by simp
  qed
  have "\<bar>y - of_int D / m * 100\<bar>
          \<le> \<bar>y - b * 100\<bar> + \<bar>b - a / m\<bar> * 100 + \<bar>a - of_int D\<bar> / m * 100"
  proof -
    have "y - of_int D / m * 100
            = (y - b * 100) + (b - a / m) * 100 + (a - of_int D) / m * 100"
      by (simp add: diff_divide_distrib algebra_simps)
    then have "\<bar>y - of_int D / m * 100\<bar>
                 \<le> \<bar>y - b * 100\<bar> + \<bar>(b - a / m) * 100\<bar> + \<bar>(a - of_int D) / m * 100\<bar>"
      by linarith
    moreover have "\<bar>(b - a / m) * 100\<bar> = \<bar>b - a / m\<bar> * 100"
      by (simp only: abs_mult abs_numeral)
    moreover have "\<bar>(a - of_int D) / m * 100\<bar> = \<bar>a - of_int D\<bar> / m * 100"
      by (simp only: abs_mult abs_divide abs_of_pos [OF m] abs_numeral)
    ultimately show ?thesis by simp
  qed
  also have "\<dots> \<le> 400 * d / m * e + 2 * d / m * e * 100 + d * e / m * 100"
    using ey eb' ea m
    by (intro add_mono mult_right_mono divide_right_mono) simp_all
  also have "\<dots> = 700 * d * e / m" by (simp add: field_simps)
  also have "\<dots> < 1 / (2 * m)"
  proof -
    have "d < 2 ^ 42" using D by (simp add: d_def)
    then have "700 * d * e < 700 * 2 ^ 42 * e" using e by simp
    also have "\<dots> \<le> 1 / 2" by (simp add: e_def)
    finally have "700 * d * e < 1 / 2" .
    then have "700 * d * e / m < (1 / 2) / m" using m by (rule divide_strict_right_mono)
    then show ?thesis by simp
  qed
  finally show ?thesis
    by (simp add: y_def b_def a_def m_def)
qed

lemma round_of_close_percentage:
  fixes D :: int and n :: nat and y :: rat
  assumes n: "0 < n"
    and close: "\<bar>y - of_int D / of_nat n * 100\<bar> < 1 / (2 * of_nat n)"
  shows "round y = round (of_int D / of_nat n * 100 :: rat)
         \<or> ((200 * D + int n) mod (2 * int n) = 0
            \<and> round y = round (of_int D / of_nat n * 100 :: rat) - 1)"
proof -
  define m :: rat where "m = of_nat n"
  define Y :: rat where "Y = of_int D / m * 100"
  define k where "k = round Y"
  define T where "T = 200 * D + int n"
  have m: "0 < m" "1 \<le> m" using n by (simp_all add: m_def)
  have mi: "m = of_int (int n)" by (simp add: m_def)
  have half: "Y + 1 / 2 = of_int T / (2 * m)"
    using m by (simp add: Y_def T_def mi field_simps)
  have k: "of_int k \<le> Y + 1 / 2" "Y + 1 / 2 < of_int k + 1"
    unfolding k_def round_def by linarith+
  have small: "1 / (2 * m) \<le> 1 / 2"
    using m by (simp add: field_simps)
  have c: "y < Y + 1 / (2 * m)" "Y - 1 / (2 * m) < y"
    using close by (simp_all add: Y_def m_def abs_less_iff)
  \<comment> \<open>the integer \<open>T\<close> lies in the interval of \<open>k\<close>\<close>
  have "of_int T < (of_int k + 1) * (2 * m)"
    using k(2) m unfolding half by (simp add: field_simps)
  then have "(of_int T :: rat) < of_int ((k + 1) * (2 * int n))"
    by (simp add: mi)
  then have "T < (k + 1) * (2 * int n)"
    by (simp only: of_int_less_iff)
  then have "T + 1 \<le> (k + 1) * (2 * int n)" by simp
  then have "(of_int (T + 1) :: rat) \<le> of_int ((k + 1) * (2 * int n))"
    by (simp only: of_int_le_iff)
  then have "of_int T + 1 \<le> (of_int k + 1) * (2 * m)"
    by (simp add: mi)
  then have upper: "Y + 1 / 2 + 1 / (2 * m) \<le> of_int k + 1"
    using m unfolding half by (simp add: field_simps)
  have "of_int k * (2 * m) \<le> of_int T"
    using k(1) m unfolding half by (simp add: field_simps)
  then have "(of_int (k * (2 * int n)) :: rat) \<le> of_int T"
    by (simp add: mi)
  then have low: "k * (2 * int n) \<le> T"
    by (simp only: of_int_le_iff)
  from upper c(1) have "y + 1 / 2 < of_int k + 1" by linarith
  then have le: "round y \<le> k"
    unfolding round_def by (simp only: floor_le_iff)
  show ?thesis
  proof (cases "T = k * (2 * int n)")
    case True
    then have tie: "T mod (2 * int n) = 0" by simp
    from True have "Y + 1 / 2 = of_int k"
      using m unfolding half by (simp add: mi)
    with c(2) small have "of_int k - 1 < y + 1 / 2" by linarith
    then have "of_int (k - 1) \<le> y + 1 / 2" by simp
    then have "k - 1 \<le> round y"
      unfolding round_def by (simp only: le_floor_iff)
    with le have "round y = k \<or> round y = k - 1" by linarith
    with tie show ?thesis
      by (auto simp: k_def Y_def m_def T_def)
  next
    case False
    with low have "k * (2 * int n) + 1 \<le> T" by simp
    then have "(of_int (k * (2 * int n) + 1) :: rat) \<le> of_int T"
      by (simp only: of_int_le_iff)
    then have "of_int k * (2 * m) + 1 \<le> of_int T"
      by (simp add: mi)
    then have "(of_int k * (2 * m) + 1) / (2 * m) \<le> of_int T / (2 * m)"
      using m by (intro divide_right_mono) simp_all
    moreover have "(of_int k * (2 * m) + 1) / (2 * m) = of_int k + 1 / (2 * m)"
      using m by (simp add: add_divide_distrib)
    ultimately have "of_int k + 1 / (2 * m) \<le> Y + 1 / 2"
      unfolding half by simp
    with c(2) have "of_int k \<le> y + 1 / 2" by linarith
    then have "k \<le> round y"
      unfolding round_def by (simp only: le_floor_iff)
    with le have "round y = k" by simp
    then show ?thesis
      by (simp add: k_def Y_def m_def)
  qed
qed

lemma calculateCompressionRatio_near_spec:
  assumes "originalSize < 2 ^ 42" and "convertedSize' < 2 ^ 42"
  shows "calculateCompressionRatio originalSize convertedSize'
           = spec_compressionRatio originalSize convertedSize'
         \<or> ((200 * (int originalSize - int convertedSize') + int originalSize)
                mod (2 * int originalSize) = 0
            \<and> calculateCompressionRatio originalSize convertedSize'
                = spec_compressionRatio originalSize convertedSize' - 1)"
proof (cases "originalSize = 0")
  case True
  then show ?thesis
    by (simp add: calculateCompressionRatio_def spec_compressionRatio_def)
next
  case False
  then have n: "0 < originalSize" by simp
  let ?D = "int originalSize - int convertedSize'"
  have "\<bar>?D\<bar> < 2 ^ 42" using assms by (simp add: abs_if)
  from round_of_close_percentage [OF n percentage_error [OF n this]] False
  show ?thesis
    by (simp add: calculateCompressionRatio_def spec_compressionRatio_def js_defs)
qed

lemma example_success:
  "snd (convertToWebP freshConverter (toFileInfo pngFile) DEFAULT_CONVERSION_CONFIG
          (successEnv ''id1'' 800)) = Inr exampleResult"
  by (simp add: pipeline_defs successEnv_def freshConverter_def toFileInfo_def pngFile_def
      calculateCompressionRatio_examples exampleResult_def)

lemma example_empty_success:
  "snd (convertToWebP freshConverter (toFileInfo emptyGifFile) DEFAULT_CONVERSION_CONFIG
          (successEnv ''id5'' 800)) = Inr emptyFileResult"
  by (simp add: pipeline_defs successEnv_def freshConverter_def toFileInfo_def emptyGifFile_def
      calculateCompressionRatio_examples emptyFileResult_def)

lemma example_tie_success:
  "snd (convertToWebP freshConverter (toFileInfo tieFile) DEFAULT_CONVERSION_CONFIG
          (successEnv ''id6'' 171)) = Inr tieResult"
  by (simp add: pipeline_defs successEnv_def freshConverter_def toFileInfo_def tieFile_def
      calculateCompressionRatio_examples tieResult_def)

text \<open>
  Claim C3, as stated, fails. A file of 200 bytes is converted to a blob of 171 bytes.
  The formula of the specification gives \<open>round 14.5 = 15\<close>. The code divides and
  multiplies in doubles: the quotient \<open>29 / 200\<close> is rounded to a double just below
  0.145, the product with 100 to the double \<open>14.499999999999998\<close>, and \<^verbatim>\<open>Math.round\<close>
  of it is 14.
\<close>

theorem compressionRatio_tie_counterexample:
  "snd (convertToWebP freshConverter (toFileInfo tieFile) DEFAULT_CONVERSION_CONFIG
          (successEnv ''id6'' 171)) = Inr tieResult
   \<and> size_FI (originalFile tieResult) = 200
   \<and> convertedSize tieResult = 171
   \<and> compressionRatio tieResult = 14
   \<and> spec_compressionRatio 200 171 = 15"
proof -
  have "size_FI (originalFile tieResult) = 200" "convertedSize tieResult = 171"
    "compressionRatio tieResult = 14"
    by (simp_all add: tieResult_def toFileInfo_def tieFile_def)
  with example_tie_success spec_compressionRatio_200_171 show ?thesis
    by simp
qed

text \<open>
  Claim C3, amended. For every conversion that succeeds, the result carries the file that
  was passed in and the size of the converted blob, and its field \<open>compressionRatio\<close> is
  0 when the original size is 0, and otherwise \<^verbatim>\<open>Math.round\<close> of the value that the
  code computes in doubles: the difference of the two sizes, divided by the original size
  and rounded to the nearest double, multiplied by 100 and rounded to the nearest double.
  When both sizes are below \<open>2\<^sup>4\<^sup>2\<close> bytes, this is the value of the formula read exactly,
  except possibly when the exact percentage is a half-integer, where it may be one less.
\<close>

theorem compressionRatio_in_doubles:
  assumes "snd (convertToWebP c file' config env) = Inr result"
  shows "originalFile result = file'
         \<and> convertedSize result = size_Blob (convertedBlob result)
         \<and> (size_FI (originalFile result) = 0 \<longrightarrow> compressionRatio result = 0)
         \<and> (size_FI (originalFile result) \<noteq> 0 \<longrightarrow>
              compressionRatio result =
                round (toDouble
                         (toDouble
                            (toDouble (of_nat (size_FI (originalFile result))
                                         - of_nat (convertedSize result))
                               / of_nat (size_FI (originalFile result)))
                          * 100)))
         \<and> (size_FI (originalFile result) < 2 ^ 42 \<and> convertedSize result < 2 ^ 42 \<longrightarrow>
              compressionRatio result
                = spec_compressionRatio (size_FI (originalFile result)) (convertedSize result)
              \<or> ((200 * (int (size_FI (originalFile result)) - int (convertedSize result))
                     + int (size_FI (originalFile result)))
                    mod (2 * int (size_FI (originalFile result))) = 0
                 \<and> compressionRatio result
                     = spec_compressionRatio (size_FI (originalFile result))
                         (convertedSize result) - 1))"
proof -
  note S = convertToWebP_success [OF assms]
  have eq: "compressionRatio result
          = calculateCompressionRatio (size_FI (originalFile result)) (convertedSize result)"
    using S(3,4) by simp
  have doubles: "originalFile result = file'
         \<and> convertedSize result = size_Blob (convertedBlob result)
         \<and> (size_FI (originalFile result) = 0 \<longrightarrow> compressionRatio result = 0)
         \<and> (size_FI (originalFile result) \<noteq> 0 \<longrightarrow>
              compressionRatio result =
                round (toDouble
                         (toDouble
                            (toDouble (of_nat (size_FI (originalFile result))
                                         - of_nat (convertedSize result))
                               / of_nat (size_FI (originalFile result)))
                          * 100)))"
    using eq S(3,7)
    by (simp add: calculateCompressionRatio_def js_defs)
  have near: "size_FI (originalFile result) < 2 ^ 42 \<and> convertedSize result < 2 ^ 42 \<longrightarrow>
              compressionRatio result
                = spec_compressionRatio (size_FI (originalFile result)) (convertedSize result)
              \<or> ((200 * (int (size_FI (originalFile result)) - int (convertedSize result))
                     + int (size_FI (originalFile result)))
                    mod (2 * int (size_FI (originalFile result))) = 0
                 \<and> compressionRatio result
                     = spec_compressionRatio (size_FI (originalFile result))
                         (convertedSize result) - 1)"
    unfolding eq
    using calculateCompressionRatio_near_spec
            [of "size_FI (originalFile result)" "convertedSize result"]
    by blast
  from doubles near show ?thesis
    by blast
qed

theorem compressionRatio_in_doubles_witness:
  "snd (convertToWebP freshConverter (toFileInfo pngFile) DEFAULT_CONVERSION_CONFIG
          (successEnv ''id1'' 800)) = Inr exampleResult
   \<and> size_FI (originalFile exampleResult) = 2000
   \<and> convertedSize exampleResult = 800
   \<and> compressionRatio exampleResult = round (toDouble (toDouble (toDouble (2000 - 800) / 2000) * 100))
   \<and> round (toDouble (toDouble (toDouble (2000 - 800) / 2000) * 100)) = 60
   \<and> compressionRatio exampleResult = spec_compressionRatio 2000 800
   \<and> snd (convertToWebP freshConverter (toFileInfo emptyGifFile) DEFAULT_CONVERSION_CONFIG
            (successEnv ''id5'' 800)) = Inr emptyFileResult
   \<and> size_FI (originalFile emptyFileResult) = 0
   \<and> compressionRatio emptyFileResult = 0"
proof -
  have fields: "size_FI (originalFile exampleResult) = 2000" "convertedSize exampleResult = 800"
    by (simp_all add: exampleResult_def toFileInfo_def pngFile_def)
  have sixty: "round (toDouble (toDouble (toDouble (2000 - 800) / 2000) * 100)) = 60"
    by code_simp
  have empty: "size_FI (originalFile emptyFileResult) = 0"
    by (simp add: emptyFileResult_def toFileInfo_def emptyGifFile_def)
  note T = compressionRatio_in_doubles [OF example_success]
  from T
  have "size_FI (originalFile exampleResult) \<noteq> 0 \<longrightarrow>
          compressionRatio exampleResult =
            round (toDouble
                     (toDouble
                        (toDouble (of_nat (size_FI (originalFile exampleResult))
                                     - of_nat (convertedSize exampleResult))
                           / of_nat (size_FI (originalFile exampleResult)))
                      * 100))"
    by blast
  with fields
  have r: "compressionRatio exampleResult
             = round (toDouble (toDouble (toDouble (2000 - 800) / 2000) * 100))"
    by simp
  from T
  have "size_FI (originalFile exampleResult) < 2 ^ 42 \<and> convertedSize exampleResult < 2 ^ 42 \<longrightarrow>
          compressionRatio exampleResult
            = spec_compressionRatio (size_FI (originalFile exampleResult))
                (convertedSize exampleResult)
          \<or> ((200 * (int (size_FI (originalFile exampleResult))
                        - int (convertedSize exampleResult))
                 + int (size_FI (originalFile exampleResult)))
                mod (2 * int (size_FI (originalFile exampleResult))) = 0
             \<and> compressionRatio exampleResult
                 = spec_compressionRatio (size_FI (originalFile exampleResult))
                     (convertedSize exampleResult) - 1)"
    by blast
  with fields
  have s: "compressionRatio exampleResult = spec_compressionRatio 2000 800"
    by simp
  from compressionRatio_in_doubles [OF example_empty_success]
  have "size_FI (originalFile emptyFileResult) = 0 \<longrightarrow> compressionRatio emptyFileResult = 0"
    by blast
  with empty have z: "compressionRatio emptyFileResult = 0"
    by blast
  show ?thesis
    using example_success example_empty_success fields r s sixty empty z by simp
qed

text \<open>
  Claim C7. A conversion that completes successfully has emitted exactly four progress
  events and then its completion event, and nothing else: Reading with 0, Processing with
  25, Converting with 50, Finalizing with 100, in this order, each with the id and the file
  name of the item.
\<close>

theorem progress_events_of_success:
  assumes "snd (convertToWebP c file' config env) = Inr result"
  shows "emitted (fst (convertToWebP c file' config env)) =
           emitted c @
             [ProgressEvent \<lparr> id_PI = id_CR result, fileName_PI = name (originalFile result),
                              progress = 0, stage = READING, message_PI = ReadingMsg \<rparr>,
              ProgressEvent \<lparr> id_PI = id_CR result, fileName_PI = name (originalFile result),
                              progress = 25, stage = PROCESSING, message_PI = ProcessingMsg \<rparr>,
              ProgressEvent \<lparr> id_PI = id_CR result, fileName_PI = name (originalFile result),
                              progress = 50, stage = CONVERTING, message_PI = ConvertingMsg \<rparr>,
              ProgressEvent \<lparr> id_PI = id_CR result, fileName_PI = name (originalFile result),
                              progress = 100, stage = FINALIZING, message_PI = FinalizingMsg \<rparr>,
              CompleteEvent result]"
  using convertToWebP_success [OF assms] by simp

theorem progress_events_of_success_witness:
  "snd (convertToWebP freshConverter (toFileInfo pngFile) DEFAULT_CONVERSION_CONFIG
          (successEnv ''id1'' 800)) = Inr exampleResult
   \<and> emitted (fst (convertToWebP freshConverter (toFileInfo pngFile) DEFAULT_CONVERSION_CONFIG
                     (successEnv ''id1'' 800))) =
       [ProgressEvent \<lparr> id_PI = ''id1'', fileName_PI = ''a.png'',
                        progress = 0, stage = READING, message_PI = ReadingMsg \<rparr>,
        ProgressEvent \<lparr> id_PI = ''id1'', fileName_PI = ''a.png'',
                        progress = 25, stage = PROCESSING, message_PI = ProcessingMsg \<rparr>,
        ProgressEvent \<lparr> id_PI = ''id1'', fileName_PI = ''a.png'',
                        progress = 50, stage = CONVERTING, message_PI = ConvertingMsg \<rparr>,
        ProgressEvent \<lparr> id_PI = ''id1'', fileName_PI = ''a.png'',
                        progress = 100, stage = FINALIZING, message_PI = FinalizingMsg \<rparr>,
        CompleteEvent exampleResult]"
proof -
  have "id_CR exampleResult = ''id1''" "name (originalFile exampleResult) = ''a.png''"
    "emitted freshConverter = []"
    by (simp_all add: exampleResult_def toFileInfo_def pngFile_def freshConverter_def)
  with progress_events_of_success [OF example_success] example_success
  show ?thesis by simp
qed

text \<open>
  Claim C9. On a converter that has not been disposed, \<^verbatim>\<open>cancelConversion\<close> with an id
  that is not a key of the registry returns normally and leaves the whole state of the
  converter as it was: the registry, the controllers and the emitted events.
\<close>

theorem cancelConversion_unknown_id:
  assumes "\<not> isDisposed_IC c" and "activeConversions c id' = None"
  shows "cancelConversion c id' = Inr c"
  using assms by (simp add: cancelConversion_def ensureNotDisposed_def)

theorem cancelConversion_unknown_id_witness:
  "\<not> isDisposed_IC freshConverter \<and> activeConversions freshConverter ''id9'' = None
   \<and> cancelConversion freshConverter ''id9'' = Inr freshConverter"
proof -
  have a: "\<not> isDisposed_IC freshConverter" and b: "activeConversions freshConverter ''id9'' = None"
    by (simp_all add: freshConverter_def)
  from cancelConversion_unknown_id [OF a b] a b show ?thesis by simp
qed

section \<open>Application: theorems on the statistics\<close>

lemma updateStats_fields:
  "updateStats stats result =
     \<lparr> totalFilesProcessed = totalFilesProcessed stats + 1,
       totalSizeReduced =
         totalSizeReduced stats + (int (size_FI (originalFile result)) - int (convertedSize result)),
       averageCompressionRatio =
         jsDiv (jsAdd (jsMul (averageCompressionRatio stats)
                             (jsSub (of_nat (successfulConversions stats + 1)) 1))
                      (of_int (compressionRatio result)))
               (of_nat (successfulConversions stats + 1)),
       averageProcessingTime =
         jsDiv (jsAdd (jsMul (averageProcessingTime stats)
                             (jsSub (of_nat (successfulConversions stats + 1)) 1))
                      (of_int (processingTime result)))
               (of_nat (successfulConversions stats + 1)),
       successfulConversions = successfulConversions stats + 1,
       failedConversions = failedConversions stats \<rparr>"
  by (simp add: updateStats_def Let_def)



text \<open>The counters count the successes and the failures of the sequence.\<close>

lemma successes_counted:
  "successfulConversions (foldl applyOutcome stats outcomes)
     = successfulConversions stats + length (succeededResults outcomes)"
  by (induction outcomes arbitrary: stats rule: succeededResults.induct)
     (simp_all add: handleConversionComplete_def handleConversionError_def updateStats_fields)

lemma failures_counted:
  "failedConversions (foldl applyOutcome stats outcomes)
     = failedConversions stats + (length outcomes - length (succeededResults outcomes))"
proof (induction outcomes arbitrary: stats rule: succeededResults.induct)
  case (3 error outcomes)
  have "length (succeededResults outcomes) \<le> length outcomes"
    by (induction outcomes rule: succeededResults.induct) simp_all
  with 3 show ?case
    by (simp add: handleConversionError_def Suc_diff_le)
qed (simp_all add: handleConversionComplete_def updateStats_fields)

text \<open>
  The example of the specification: after the ratios 50 and 30 the average is 40, and a
  failure after them leaves it at 40 and counts one failure.
\<close>

lemma stats_example_50_30:
  "averageCompressionRatio
     (foldl applyOutcome initializeStats
        [Succeeded (resultWithRatio 50), Succeeded (resultWithRatio 30)]) = 40"
  "averageCompressionRatio
     (foldl applyOutcome initializeStats
        [Succeeded (resultWithRatio 50), Succeeded (resultWithRatio 30),
         Failed_with (createConversionError ''id9'' ''x.png'' (JsOther ''x'') 0)]) = 40"
  "failedConversions
     (foldl applyOutcome initializeStats
        [Succeeded (resultWithRatio 50), Succeeded (resultWithRatio 30),
         Failed_with (createConversionError ''id9'' ''x.png'' (JsOther ''x'') 0)]) = 1"
    apply (simp add: handleConversionComplete_def updateStats_fields initializeStats_def
      resultWithRatio_def js_defs, code_simp)
   apply (simp add: handleConversionComplete_def handleConversionError_def updateStats_fields
      initializeStats_def resultWithRatio_def js_defs, code_simp)
  apply (simp add: handleConversionComplete_def handleConversionError_def updateStats_fields
      initializeStats_def)
  done

section \<open>ImageConverter: cancellation\<close>

lemma classify_cancelled:
  "classify (JsError ''Error'' ''Conversion was cancelled'') = (PROCESSING_ERROR, CancelledMsg)"
  by (simp add: classify_def)

lemma catchBlock_cancelled:
  "catchBlock c t (JsError ''Error'' ''Conversion was cancelled'') now =
     (c\<lparr>activeConversions := (activeConversions c)(conversionId t := None),
         emitted := emitted c @
           [ErrorEvent \<lparr> id_CE = conversionId t, fileName_CE = name (file_arg t),
                         errorType = PROCESSING_ERROR, message_CE = CancelledMsg,
                         details = ''Error: Conversion was cancelled'', timestamp = now \<rparr>]\<rparr>,
      Inl (Rejected \<lparr> id_CE = conversionId t, fileName_CE = name (file_arg t),
                      errorType = PROCESSING_ERROR, message_CE = CancelledMsg,
                      details = ''Error: Conversion was cancelled'', timestamp = now \<rparr>))"
  by (simp add: catchBlock_def createConversionError_def classify_cancelled
      notifyConversionError_def Let_def)

text \<open>
  Claim C8. The token of a conversion is tested each time an awaited operation has
  settled, before the next stage (Processing, Converting, Finalizing) is announced; the
  first stage, Reading, is announced in the same synchronous step that creates the token.
  At each of the three tests, when the token is set, the conversion is rejected with a
  \<^verbatim>\<open>ConversionError\<close> of type \<open>PROCESSING_ERROR\<close> with the message for a cancelled
  conversion; the only event emitted is that error event, so there is no completion event
  and no further progress event; and of the converter's state only the registry entry of
  this id is removed: the entries and the tokens of all other conversions are as before.
\<close>

theorem cancelled_token_aborts_item:
  assumes "aborted c (abortController t)"
  shows "let conversionError =
               \<lparr> id_CE = conversionId t, fileName_CE = name (file_arg t),
                 errorType = PROCESSING_ERROR, message_CE = CancelledMsg,
                 details = ''Error: Conversion was cancelled'', timestamp = errorNow env \<rparr>;
             c' = c\<lparr>activeConversions := (activeConversions c)(conversionId t := None),
                    emitted := emitted c @ [ErrorEvent conversionError]\<rparr>
         in (readResult env = Inr imageData
               \<longrightarrow> afterRead env c t = (c', Inl (Inl (Rejected conversionError))))
          \<and> afterProcess env c t processedImage = (c', Inl (Inl (Rejected conversionError)))
          \<and> (encodeResult env = Inr webpBlob
               \<longrightarrow> afterEncode env c t = (c', Inl (Rejected conversionError)))"
  using assms
  by (simp add: afterRead_def afterProcess_def afterEncode_def checkAborted_def
      catchBlock_cancelled Let_def)

lemma twoStartedOneCancelled_fields:
  "aborted twoStartedOneCancelled 0" "\<not> aborted twoStartedOneCancelled (Suc 0)"
  "activeConversions twoStartedOneCancelled ''id1'' = None"
  "activeConversions twoStartedOneCancelled ''id2'' = Some (Suc 0)"
  "emitted twoStartedOneCancelled =
     [ProgressEvent \<lparr> id_PI = ''id1'', fileName_PI = ''a.png'', progress = 0, stage = READING,
                      message_PI = ReadingMsg \<rparr>,
      ProgressEvent \<lparr> id_PI = ''id2'', fileName_PI = ''c.jpg'', progress = 0, stage = READING,
                      message_PI = ReadingMsg \<rparr>]"
  by (simp_all add: twoStartedOneCancelled_def whilePending_def cancelConversion_def
      beginConversion_def ensureNotDisposed_def reportProgress_def freshConverter_def
      successEnv_def toFileInfo_def pngFile_def jpegFile_def Let_def)

theorem cancelled_token_aborts_item_witness:
  "aborted twoStartedOneCancelled (abortController firstConversion)
   \<and> readResult (successEnv ''id1'' 800) = Inr \<lparr> naturalWidth = 4, naturalHeight = 3 \<rparr>
   \<and> encodeResult (successEnv ''id1'' 800) = Inr \<lparr> size_Blob = 800, type_Blob = ''image/webp'' \<rparr>
   \<and> snd (afterRead (successEnv ''id1'' 800) twoStartedOneCancelled firstConversion)
       = Inl (Inl (Rejected \<lparr> id_CE = ''id1'', fileName_CE = ''a.png'',
                              errorType = PROCESSING_ERROR, message_CE = CancelledMsg,
                              details = ''Error: Conversion was cancelled'', timestamp = 140 \<rparr>))
   \<and> snd (afterProcess (successEnv ''id1'' 800) twoStartedOneCancelled firstConversion
            \<lparr> naturalWidth = 4, naturalHeight = 3 \<rparr>)
       = Inl (Inl (Rejected \<lparr> id_CE = ''id1'', fileName_CE = ''a.png'',
                              errorType = PROCESSING_ERROR, message_CE = CancelledMsg,
                              details = ''Error: Conversion was cancelled'', timestamp = 140 \<rparr>))
   \<and> snd (afterEncode (successEnv ''id1'' 800) twoStartedOneCancelled firstConversion)
       = Inl (Rejected \<lparr> id_CE = ''id1'', fileName_CE = ''a.png'',
                         errorType = PROCESSING_ERROR, message_CE = CancelledMsg,
                         details = ''Error: Conversion was cancelled'', timestamp = 140 \<rparr>)
   \<and> emitted (fst (afterProcess (successEnv ''id1'' 800) twoStartedOneCancelled firstConversion
                     \<lparr> naturalWidth = 4, naturalHeight = 3 \<rparr>))
       = emitted twoStartedOneCancelled
         @ [ErrorEvent \<lparr> id_CE = ''id1'', fileName_CE = ''a.png'',
                         errorType = PROCESSING_ERROR, message_CE = CancelledMsg,
                         details = ''Error: Conversion was cancelled'', timestamp = 140 \<rparr>]
   \<and> activeConversions
         (fst (afterProcess (successEnv ''id1'' 800) twoStartedOneCancelled firstConversion
                 \<lparr> naturalWidth = 4, naturalHeight = 3 \<rparr>)) ''id2'' = Some 1
   \<and> \<not> aborted
         (fst (afterProcess (successEnv ''id1'' 800) twoStartedOneCancelled firstConversion
                 \<lparr> naturalWidth = 4, naturalHeight = 3 \<rparr>)) 1"
proof -
  have set: "aborted twoStartedOneCancelled (abortController firstConversion)"
    by (simp add: twoStartedOneCancelled_fields firstConversion_def)
  have t: "conversionId firstConversion = ''id1''" "name (file_arg firstConversion) = ''a.png''"
    "errorNow (successEnv ''id1'' 800) = 140"
    by (simp_all add: firstConversion_def toFileInfo_def pngFile_def successEnv_def)
  have ok: "readResult (successEnv ''id1'' 800) = Inr \<lparr> naturalWidth = 4, naturalHeight = 3 \<rparr>"
    "encodeResult (successEnv ''id1'' 800) = Inr \<lparr> size_Blob = 800, type_Blob = ''image/webp'' \<rparr>"
    by (simp_all add: successEnv_def)
  let ?e = "\<lparr> id_CE = ''id1'', fileName_CE = ''a.png'',
               errorType = PROCESSING_ERROR, message_CE = CancelledMsg,
               details = ''Error: Conversion was cancelled'', timestamp = 140 \<rparr>"
  let ?c' = "twoStartedOneCancelled
               \<lparr>activeConversions := (activeConversions twoStartedOneCancelled)(''id1'' := None),
                emitted := emitted twoStartedOneCancelled @ [ErrorEvent ?e]\<rparr>"
  from cancelled_token_aborts_item
    [OF set, of "successEnv ''id1'' 800" "\<lparr> naturalWidth = 4, naturalHeight = 3 \<rparr>"
       "\<lparr> naturalWidth = 4, naturalHeight = 3 \<rparr>"
       "\<lparr> size_Blob = 800, type_Blob = ''image/webp'' \<rparr>"]
  have "afterRead (successEnv ''id1'' 800) twoStartedOneCancelled firstConversion
          = (?c', Inl (Inl (Rejected ?e)))"
    and "afterProcess (successEnv ''id1'' 800) twoStartedOneCancelled firstConversion
            \<lparr> naturalWidth = 4, naturalHeight = 3 \<rparr> = (?c', Inl (Inl (Rejected ?e)))"
    and "afterEncode (successEnv ''id1'' 800) twoStartedOneCancelled firstConversion
          = (?c', Inl (Rejected ?e))"
    by (simp_all add: Let_def t ok)
  with set ok show ?thesis
    by (simp add: twoStartedOneCancelled_fields)
qed

text \<open>
  \<^verbatim>\<open>cancelConversion\<close> with the id of a registered conversion sets the token of that
  conversion and removes its entry; no other token and no other entry changes, and no event
  is emitted.
\<close>

lemma cancelConversion_sets_token:
  assumes "\<not> isDisposed_IC c" and "activeConversions c id' = Some a"
  shows "cancelConversion c id' =
           Inr (c\<lparr>aborted := (aborted c)(a := True),
                  activeConversions := (activeConversions c)(id' := None)\<rparr>)"
  using assms by (simp add: cancelConversion_def ensureNotDisposed_def)

section \<open>ImageConverter: theorems on a batch\<close>

text \<open>
  With a positive \<open>maxConcurrentConversions\<close> the loop always comes to its next
  suspension or to its return; with 0 and a file to convert it never does.
\<close>

lemma loopIndex_startOne [simp]: "loopIndex (startOne files config envs k b) = loopIndex b"
  by (simp add: startOne_def split: prod.splits sum.splits)

lemma loopIndex_fold_startOne:
  "loopIndex (fold (startOne files config envs) ks b) = loopIndex b"
  by (induction ks arbitrary: b) simp_all

lemma loopIndex_startChunk [simp]: "loopIndex (startChunk files config envs b) = loopIndex b"
  by (simp add: startChunk_def loopIndex_fold_startOne)

lemma convertLoop_head_total:
  assumes "0 < maxConcurrentConversions config"
  shows "\<exists>b'. convertLoop files config envs False b = Some b'"
proof (induction "length files - loopIndex b" arbitrary: b rule: less_induct)
  case less
  show ?case
  proof (cases "loopIndex b < length files")
    case False
    then show ?thesis by (subst convertLoop.simps) simp
  next
    case True
    let ?b1 = "startChunk files config envs b"
    have smaller: "length files - (loopIndex ?b1 + maxConcurrentConversions config)
                     < length files - loopIndex b"
      using True assms by simp
    have step: "convertLoop files config envs False b = convertLoop files config envs True ?b1"
      using True by (subst convertLoop.simps) simp
    show ?thesis
    proof (cases "promiseAll (currentChunk config ?b1)")
      case AllPending
      then show ?thesis
        unfolding step by (subst convertLoop.simps) simp
    next
      case AllRejected
      from less [of "?b1\<lparr>loopIndex := loopIndex ?b1 + maxConcurrentConversions config\<rparr>"] smaller
      show ?thesis
        unfolding step using AllRejected by (subst convertLoop.simps) simp
    next
      case (AllFulfilled rs)
      from less [of "?b1\<lparr>results := results ?b1 @ rs,
                          loopIndex := loopIndex ?b1 + maxConcurrentConversions config\<rparr>"] smaller
      show ?thesis
        unfolding step using AllFulfilled by (subst convertLoop.simps) simp
    qed
  qed
qed

lemma convertLoop_total:
  assumes "0 < maxConcurrentConversions config"
  shows "\<exists>b'. convertLoop files config envs atAwait b = Some b'"
proof (cases atAwait)
  case False
  with convertLoop_head_total [OF assms] show ?thesis by simp
next
  case True
  show ?thesis
  proof (cases "promiseAll (currentChunk config b)")
    case AllPending
    with True show ?thesis by (subst convertLoop.simps) simp
  next
    case AllRejected
    with True convertLoop_head_total [OF assms] show ?thesis
      by (subst convertLoop.simps) simp
  next
    case (AllFulfilled rs)
    with True convertLoop_head_total [OF assms] show ?thesis
      by (subst convertLoop.simps) simp
  qed
qed

lemma convertLoop_zero_never_returns:
  assumes "convertLoop files config envs atAwait b = Some y"
  shows "\<not> (maxConcurrentConversions config = 0 \<and> loopIndex b < length files)"
proof (rule convertLoop.raw_induct
    [where P = "\<lambda>files config envs atAwait b y.
                  \<not> (maxConcurrentConversions config = 0 \<and> loopIndex b < length files)",
      OF _ assms])
  fix loop :: "FileInfo list \<Rightarrow> ConversionConfig \<Rightarrow> (nat \<Rightarrow> conv_env) \<Rightarrow> bool \<Rightarrow> batch \<Rightarrow> batch option"
  fix files config envs atAwait b y
  assume IH: "\<And>files config envs atAwait b y.
                loop files config envs atAwait b = Some y \<Longrightarrow>
                \<not> (maxConcurrentConversions config = 0 \<and> loopIndex b < length files)"
  assume body:
    "(if atAwait then
        (case promiseAll (currentChunk config b) of
           AllPending \<Rightarrow> Some b
         | AllRejected \<Rightarrow>
             loop files config envs False
               (b\<lparr>loopIndex := loopIndex b + maxConcurrentConversions config\<rparr>)
         | AllFulfilled batchResults \<Rightarrow>
             loop files config envs False
               (b\<lparr>results := results b @ batchResults,
                   loopIndex := loopIndex b + maxConcurrentConversions config\<rparr>))
      else if loopIndex b < length files
        then loop files config envs True (startChunk files config envs b)
      else Some (b\<lparr>returned := True\<rparr>)) = Some y"
  show "\<not> (maxConcurrentConversions config = 0 \<and> loopIndex b < length files)"
  proof
    assume z: "maxConcurrentConversions config = 0 \<and> loopIndex b < length files"
    show False
    proof (cases atAwait)
      case True
      with z body have "loop files config envs False b = Some y"
        by (simp add: currentChunk_def promiseAll_def)
      from IH [OF this] z show False by simp
    next
      case False
      with z body have "loop files config envs True (startChunk files config envs b) = Some y"
        by simp
      from IH [OF this] z show False by simp
    qed
  qed
qed

lemma convertMultiple_zero_diverges:
  assumes "\<not> isDisposed_IC c" and "files \<noteq> []" and "maxConcurrentConversions config = 0"
  shows "convertMultiple c files config envs = None"
proof -
  let ?b = "\<lparr> converter = c, slots = replicate (length files) NotStarted, loopIndex = 0,
                 results = [], returned = False \<rparr>"
  have "convertLoop files config envs False ?b = None"
  proof (cases "convertLoop files config envs False ?b")
    case (Some y)
    from convertLoop_zero_never_returns [OF this] assms(2,3) show ?thesis by simp
  qed simp
  with assms(1) show ?thesis
    by (simp add: convertMultiple_def ensureNotDisposed_def)
qed

lemma convertMultiple_total:
  assumes "0 < maxConcurrentConversions config"
  shows "\<exists>r. convertMultiple c files config envs = Some r"
  using convertLoop_total [OF assms, of files envs False]
  by (auto simp: convertMultiple_def split: option.splits)

lemmas batch_defs =
  runBatch_def convertMultiple_def deliver_def resume_def startChunk_def startOne_def
  chunkIndices_def promiseAll_def currentChunk_def

lemmas example_defs =
  freshConverter_def threeFiles_def fourFiles_def secondFails_def firstFails_def twoAtATime_def
  successEnv_def corruptEnv_def DEFAULT_CONVERSION_CONFIG_def
  toFileInfo_def pngFile_def jpegFile_def corruptPngFile_def exampleResult_def thirdResult_def

text \<open>
  Claim C1 does not hold of the code. Three files form one chunk and the second cannot be
  decoded. Whatever the first and the third do, \<^verbatim>\<open>Promise.all\<close> is rejected, the
  \<^verbatim>\<open>catch\<close> block of the loop is entered and \<^verbatim>\<open>results.push\<close> is skipped: the call
  returns the empty list, although a completion event has been emitted for the first and
  for the third file, and one error event for the second.
\<close>

theorem sibling_results_dropped:
  "returnValue (runBatch freshConverter threeFiles DEFAULT_CONVERSION_CONFIG secondFails
                  [0, 0, 0, 1, 2, 2, 2]) = Some []
   \<and> filter isCompleteEvent
        (eventsOf (runBatch freshConverter threeFiles DEFAULT_CONVERSION_CONFIG secondFails
                     [0, 0, 0, 1, 2, 2, 2]))
       = [CompleteEvent exampleResult, CompleteEvent thirdResult]
   \<and> filter isErrorEvent
        (eventsOf (runBatch freshConverter threeFiles DEFAULT_CONVERSION_CONFIG secondFails
                     [0, 0, 0, 1, 2, 2, 2]))
       = [ErrorEvent \<lparr> id_CE = ''id2'', fileName_CE = ''bad.png'', errorType = PROCESSING_ERROR,
                       message_CE = ProcessingFailedMsg ''Failed to load image'',
                       details = ''Error: Failed to load image'', timestamp = 140 \<rparr>]"
  by (simp add: batch_defs convertLoop.simps pipeline_defs example_defs upt_rec
      calculateCompressionRatio_examples)

text \<open>
  The list that the call returns in this example does not depend on the schedule: in
  whatever order the browser resumes the three conversions, the loop comes to a state in
  which it is suspended or has returned, and its results are empty. The second slot is
  never fulfilled, so \<^verbatim>\<open>Promise.all\<close> of the chunk is never fulfilled.
\<close>

lemma resume_second_fails:
  "\<exists>c' r. resume (secondFails 1) c t AwaitRead = (c', Finished (Inl r))"
  by (simp add: resume_def afterRead_def catchBlock_def secondFails_def corruptEnv_def
      successEnv_def Let_def)

lemma not_all_fulfilled:
  assumes "length ss = 3" and "ss ! 1 = Running t p"
  shows "\<not> list_all isFulfilled (take 3 ss)"
proof
  assume "list_all isFulfilled (take 3 ss)"
  with assms(1) have "isFulfilled (ss ! 1)"
    by (simp add: list_all_length)
  with assms(2) show False by simp
qed

lemma deliver_threeFiles:
  assumes len: "length (slots b) = 3" and res: "results b = []"
    and inv: "returned b \<or> (loopIndex b = 0 \<and> (\<exists>t. slots b ! 1 = Running t AwaitRead))"
  shows "\<exists>b'. deliver threeFiles DEFAULT_CONVERSION_CONFIG secondFails k b = Some b'
           \<and> length (slots b') = 3 \<and> results b' = []
           \<and> (returned b' \<or> (loopIndex b' = 0 \<and> (\<exists>t. slots b' ! 1 = Running t AwaitRead)))"
proof (cases "k < 3 \<and> (\<exists>t p. slots b ! k = Running t p)")
  case False
  with len res inv show ?thesis
    by (auto simp: deliver_def split: slot.splits)
next
  case True
  then obtain t p where k: "k < 3" and run: "slots b ! k = Running t p" by blast
  obtain c' s' where rs: "resume (secondFails k) (converter b) t p = (c', s')"
    by (cases "resume (secondFails k) (converter b) t p")
  let ?b1 = "b\<lparr>converter := c', slots := (slots b)[k := s']\<rparr>"
  have max3: "maxConcurrentConversions DEFAULT_CONVERSION_CONFIG = 3"
    by (simp add: DEFAULT_CONVERSION_CONFIG_def)
  have n3: "length threeFiles = 3"
    by (simp add: threeFiles_def)
  show ?thesis
  proof (cases "returned b")
    case True
    with len res k run rs show ?thesis
      by (simp add: deliver_def Let_def)
  next
    case notret: False
    with inv obtain t1 where i0: "loopIndex b = 0" and s1: "slots b ! 1 = Running t1 AwaitRead"
      by blast
    have d: "deliver threeFiles DEFAULT_CONVERSION_CONFIG secondFails k b
               = convertLoop threeFiles DEFAULT_CONVERSION_CONFIG secondFails True ?b1"
      using len k run rs notret i0 by (simp add: deliver_def Let_def max3)
    have chunk: "currentChunk DEFAULT_CONVERSION_CONFIG ?b1 = take 3 ((slots b)[k := s'])"
      by (simp add: currentChunk_def max3 i0)
    have leave: "convertLoop threeFiles DEFAULT_CONVERSION_CONFIG secondFails False b2
                   = Some (b2\<lparr>returned := True\<rparr>)" if "3 \<le> loopIndex b2" for b2
      using that by (subst convertLoop.simps) (simp add: n3)
    show ?thesis
    proof (cases "list_ex isRejected (take 3 ((slots b)[k := s']))")
      case True
      then have "convertLoop threeFiles DEFAULT_CONVERSION_CONFIG secondFails True ?b1
                   = Some (?b1\<lparr>loopIndex := 3, returned := True\<rparr>)"
        by (subst convertLoop.simps) (simp add: chunk promiseAll_def leave max3 i0)
      with d len res show ?thesis by simp
    next
      case norej: False
      have "k \<noteq> 1"
      proof
        assume k1: "k = 1"
        with run s1 rs resume_second_fails [of "converter b" t]
        obtain r where "s' = Finished (Inl r)" by auto
        with k1 len have "isRejected (take 3 ((slots b)[k := s']) ! 1)" by simp
        moreover from len have "1 < length (take 3 ((slots b)[k := s']))" by simp
        ultimately have "list_ex isRejected (take 3 ((slots b)[k := s']))"
          unfolding list_ex_length by blast
        with norej show False by simp
      qed
      with s1 have s1': "(slots b)[k := s'] ! 1 = Running t1 AwaitRead" by simp
      from len have "length ((slots b)[k := s']) = 3" by simp
      from not_all_fulfilled [OF this s1']
      have "convertLoop threeFiles DEFAULT_CONVERSION_CONFIG secondFails True ?b1 = Some ?b1"
        using norej by (subst convertLoop.simps) (simp add: chunk promiseAll_def)
      with d len res i0 s1' show ?thesis by simp
    qed
  qed
qed

lemma deliverAll_threeFiles:
  assumes "length (slots b) = 3" and "results b = []"
    and "returned b \<or> (loopIndex b = 0 \<and> (\<exists>t. slots b ! 1 = Running t AwaitRead))"
  shows "\<exists>b'. deliverAll threeFiles DEFAULT_CONVERSION_CONFIG secondFails schedule b = Some b'
           \<and> results b' = []"
  using assms
proof (induction schedule arbitrary: b)
  case Nil
  then show ?case by simp
next
  case (Cons k schedule)
  from deliver_threeFiles [OF Cons.prems, of k]
  obtain b1 where "deliver threeFiles DEFAULT_CONVERSION_CONFIG secondFails k b = Some b1"
    and "length (slots b1) = 3" and "results b1 = []"
    and "returned b1 \<or> (loopIndex b1 = 0 \<and> (\<exists>t. slots b1 ! 1 = Running t AwaitRead))"
    by blast
  with Cons.IH [of b1] show ?case by simp
qed

lemma threeFiles_started:
  "\<exists>b. convertMultiple freshConverter threeFiles DEFAULT_CONVERSION_CONFIG secondFails = Some (Inr b)
       \<and> length (slots b) = 3 \<and> results b = [] \<and> loopIndex b = 0
       \<and> (\<exists>t. slots b ! 1 = Running t AwaitRead)"
  by (simp add: batch_defs convertLoop.simps pipeline_defs example_defs upt_rec)

lemma threeFiles_never_returns_a_result:
  "returnValue (runBatch freshConverter threeFiles DEFAULT_CONVERSION_CONFIG secondFails schedule)
     \<in> {None, Some []}"
proof -
  from threeFiles_started obtain b where
    b: "convertMultiple freshConverter threeFiles DEFAULT_CONVERSION_CONFIG secondFails = Some (Inr b)"
    and inv: "length (slots b) = 3" "results b = []"
      "returned b \<or> (loopIndex b = 0 \<and> (\<exists>t. slots b ! 1 = Running t AwaitRead))"
    by blast
  from deliverAll_threeFiles [OF inv, of schedule] obtain b' where
    "deliverAll threeFiles DEFAULT_CONVERSION_CONFIG secondFails schedule b = Some b'"
    and "results b' = []"
    by blast
  with b show ?thesis
    by (simp add: runBatch_def)
qed

text \<open>
  Claim C2 does not hold of the code. Four files are converted in chunks of two and the
  first cannot be decoded. When its reading fails, \<^verbatim>\<open>Promise.all\<close> of the first chunk is
  rejected at once and the loop starts the second chunk, while the second file is still
  being read: three conversions are in flight, and the call has not returned.
\<close>

theorem next_chunk_starts_early:
  "maxConcurrentConversions twoAtATime = 2
   \<and> map inFlight (slotsOf (runBatch freshConverter fourFiles twoAtATime firstFails [0]))
       = [False, True, True, True]
   \<and> eventsOf (runBatch freshConverter fourFiles twoAtATime firstFails [0])
       = [ProgressEvent \<lparr> id_PI = ''id1'', fileName_PI = ''bad.png'', progress = 0,
                          stage = READING, message_PI = ReadingMsg \<rparr>,
          ProgressEvent \<lparr> id_PI = ''id2'', fileName_PI = ''a.png'', progress = 0,
                          stage = READING, message_PI = ReadingMsg \<rparr>,
          ErrorEvent \<lparr> id_CE = ''id1'', fileName_CE = ''bad.png'', errorType = PROCESSING_ERROR,
                       message_CE = ProcessingFailedMsg ''Failed to load image'',
                       details = ''Error: Failed to load image'', timestamp = 140 \<rparr>,
          ProgressEvent \<lparr> id_PI = ''id3'', fileName_PI = ''c.jpg'', progress = 0,
                          stage = READING, message_PI = ReadingMsg \<rparr>,
          ProgressEvent \<lparr> id_PI = ''id4'', fileName_PI = ''a.png'', progress = 0,
                          stage = READING, message_PI = ReadingMsg \<rparr>]
   \<and> returnValue (runBatch freshConverter fourFiles twoAtATime firstFails [0]) = None"
  by (simp add: batch_defs convertLoop.simps pipeline_defs example_defs upt_rec)

text \<open>
  When no conversion fails, the results of all files are returned in the order of the files,
  here for three files in chunks of two and a schedule that interleaves the first two.
\<close>

lemma all_succeed:
  "returnValue (runBatch freshConverter [toFileInfo pngFile, toFileInfo jpegFile, toFileInfo pngFile]
                  twoAtATime (\<lambda>k. if k = 0 then successEnv ''id1'' 800 else if k = 1 then successEnv ''id3'' 900 else successEnv ''id1'' 800)
                  [1, 0, 1, 0, 0, 1, 2, 2, 2]) = Some [exampleResult, thirdResult, exampleResult]"
  by (simp add: batch_defs convertLoop.simps pipeline_defs example_defs upt_rec
      calculateCompressionRatio_examples)

end
